theory Spec2Isabelle
  imports Main "HOL-Library.AList"
begin

section \<open>JavaScript values and coercions\<close>

text \<open>
  Values that travel over the worker channel are the results of \<^verbatim>\<open>JSON.parse\<close>.
  A value that may be \<^verbatim>\<open>undefined\<close> (a missing property, a missing argument) is a
  \<open>json option\<close>, with \<open>None\<close> for \<^verbatim>\<open>undefined\<close>.

  A string is the sequence of the bytes of its UTF-8 form; strings with a lone surrogate
  have none and are outside the model.  The program does no arithmetic on a parsed
  number: it tests it for truth and converts it to a string, so \<open>JNum\<close> keeps a number
  as these two observations, whether it is truthy (neither zero nor \<^verbatim>\<open>NaN\<close>) and the
  text that \<^verbatim>\<open>String\<close> gives for it.
\<close>

datatype json =
    JNull
  | JBool bool
  | JNum bool string
  | JStr string
  | JArr "json list"
  | JObj "(string \<times> json) list"

type_synonym js_value = "json option"

datatype js_error = JsError (err_name: string) (err_message: string)

definition new_Error :: "string \<Rightarrow> js_error" where
  "new_Error m = JsError ''Error'' m"

text \<open>An object built by \<^verbatim>\<open>JSON.parse\<close> keeps the last binding of a repeated key.\<close>

definition obj_get :: "(string \<times> json) list \<Rightarrow> string \<Rightarrow> js_value" where
  "obj_get kvs k = map_of (rev kvs) k"

text \<open>
  \<^verbatim>\<open>v?.[k]\<close> for the property names the program reads: only an object has them as
  string-typed own properties; on \<^verbatim>\<open>undefined\<close> and \<^verbatim>\<open>null\<close> the optional chain gives
  \<^verbatim>\<open>undefined\<close>, and so does the lookup on a number, a boolean, a string or an array.
\<close>

fun get_field :: "js_value \<Rightarrow> string \<Rightarrow> js_value" where
  "get_field (Some (JObj kvs)) k = obj_get kvs k"
| "get_field _ k = None"

fun truthy :: "js_value \<Rightarrow> bool" where
  "truthy None = False"
| "truthy (Some JNull) = False"
| "truthy (Some (JBool b)) = b"
| "truthy (Some (JNum nonzero text)) = nonzero"
| "truthy (Some (JStr s)) = (s \<noteq> [])"
| "truthy (Some (JArr xs)) = True"
| "truthy (Some (JObj kvs)) = True"

text \<open>\<^verbatim>\<open>typeof v === 'object' && v !== null\<close>\<close>

fun is_object :: "js_value \<Rightarrow> bool" where
  "is_object (Some (JArr xs)) = True"
| "is_object (Some (JObj kvs)) = True"
| "is_object _ = False"

text \<open>\<^verbatim>\<open>a ?? b\<close>\<close>

fun nullish_or :: "js_value \<Rightarrow> js_value \<Rightarrow> js_value" where
  "nullish_or None d = d"
| "nullish_or (Some JNull) d = d"
| "nullish_or (Some v) d = Some v"

text \<open>
  The white space and the line terminators of the language, as UTF-8: the six of one
  byte; U+00A0; and of three bytes U+1680, U+2000 to U+200A, U+2028, U+2029, U+202F,
  U+205F, U+3000 and U+FEFF.
\<close>

definition space1 :: "char \<Rightarrow> bool" where
  "space1 a = (a \<in> set [CHR 0x09, CHR 0x0A, CHR 0x0B, CHR 0x0C, CHR 0x0D, CHR 0x20])"

definition space2 :: "char \<Rightarrow> char \<Rightarrow> bool" where
  "space2 a b = (a = CHR 0xC2 \<and> b = CHR 0xA0)"

definition space3 :: "char \<Rightarrow> char \<Rightarrow> char \<Rightarrow> bool" where
  "space3 a b c =
     (a = CHR 0xE1 \<and> b = CHR 0x9A \<and> c = CHR 0x80 \<or>
      a = CHR 0xE2 \<and> b = CHR 0x80 \<and>
        (c \<in> set [CHR 0x80, CHR 0x81, CHR 0x82, CHR 0x83, CHR 0x84, CHR 0x85, CHR 0x86,
                   CHR 0x87, CHR 0x88, CHR 0x89, CHR 0x8A, CHR 0xA8, CHR 0xA9, CHR 0xAF]) \<or>
      a = CHR 0xE2 \<and> b = CHR 0x81 \<and> c = CHR 0x9F \<or>
      a = CHR 0xE3 \<and> b = CHR 0x80 \<and> c = CHR 0x80 \<or>
      a = CHR 0xEF \<and> b = CHR 0xBB \<and> c = CHR 0xBF)"

text \<open>
  The white space at the front of a string is dropped; with \<open>backwards\<close> the string is
  read from its end, so the bytes of a character come in the opposite order.
\<close>

fun drop_spaces :: "bool \<Rightarrow> string \<Rightarrow> string" where
  "drop_spaces backwards (a # b # c # rest) =
     (if space1 a then drop_spaces backwards (b # c # rest)
      else if (if backwards then space2 b a else space2 a b) then drop_spaces backwards (c # rest)
      else if (if backwards then space3 c b a else space3 a b c) then drop_spaces backwards rest
      else a # b # c # rest)"
| "drop_spaces backwards [a, b] =
     (if space1 a then drop_spaces backwards [b]
      else if (if backwards then space2 b a else space2 a b) then []
      else [a, b])"
| "drop_spaces backwards [a] = (if space1 a then [] else [a])"
| "drop_spaces backwards [] = []"

definition trim :: "string \<Rightarrow> string" where
  "trim s = rev (drop_spaces True (rev (drop_spaces False s)))"

text \<open>The lower-case form of a byte that is an ASCII letter; every other byte is kept.\<close>

definition lower_char :: "char \<Rightarrow> char" where
  "lower_char c =
     (let n = (of_char c :: nat) in if 65 \<le> n \<and> n \<le> 90 then char_of (n + 32) else c)"

text \<open>
  \<open>toLowerCase\<close> maps the letters that have an ASCII letter in their lower-case form:
  \<open>A\<close> to \<open>Z\<close>, the Kelvin sign U+212A (to \<open>k\<close>) and U+0130 (to \<open>i\<close> and U+0307).  Every
  other letter outside ASCII has a lower-case form outside ASCII and is left as it is;
  the program compares the result with ASCII text only and does not return it.
\<close>

fun toLowerCase :: "string \<Rightarrow> string" where
  "toLowerCase (a # b # c # rest) =
     (if a = CHR 0xE2 \<and> b = CHR 0x84 \<and> c = CHR 0xAA then CHR ''k'' # toLowerCase rest
      else if a = CHR 0xC4 \<and> b = CHR 0xB0
        then CHR ''i'' # CHR 0xCC # CHR 0x87 # toLowerCase (c # rest)
      else lower_char a # toLowerCase (b # c # rest))"
| "toLowerCase [a, b] =
     (if a = CHR 0xC4 \<and> b = CHR 0xB0 then [CHR ''i'', CHR 0xCC, CHR 0x87]
      else [lower_char a, lower_char b])"
| "toLowerCase [a] = [lower_char a]"
| "toLowerCase [] = []"

definition startsWith :: "string \<Rightarrow> string \<Rightarrow> bool" where
  "startsWith s p = (take (length p) s = p)"

text \<open>The decimal digits of an integer, for the exit code of a process.\<close>

definition digit_char :: "nat \<Rightarrow> char" where
  "digit_char d = ''0123456789'' ! (d mod 10)"

fun show_nat_fuel :: "nat \<Rightarrow> nat \<Rightarrow> string" where
  "show_nat_fuel 0 n = [digit_char (n mod 10)]"
| "show_nat_fuel (Suc f) n =
     (if n < 10 then [digit_char n] else show_nat_fuel f (n div 10) @ [digit_char (n mod 10)])"

definition show_nat :: "nat \<Rightarrow> string" where
  "show_nat n = show_nat_fuel n n"

definition show_int :: "int \<Rightarrow> string" where
  "show_int i = (if i < 0 then CHR ''-'' # show_nat (nat (- i)) else show_nat (nat i))"

fun join :: "string \<Rightarrow> string list \<Rightarrow> string" where
  "join sep [] = []"
| "join sep [x] = x"
| "join sep (x # y # ys) = x @ sep @ join sep (y # ys)"

text \<open>The results of a list of conversions, or the first error among them.\<close>

fun sequence :: "(js_error + 'a) list \<Rightarrow> js_error + 'a list" where
  "sequence [] = Inr []"
| "sequence (Inl e # rs) = Inl e"
| "sequence (Inr x # rs) = (case sequence rs of Inl e \<Rightarrow> Inl e | Inr xs \<Rightarrow> Inr (x # xs))"

definition cannot_convert :: js_error where
  "cannot_convert = JsError ''TypeError'' ''Cannot convert object to primitive value''"

text \<open>
  \<^verbatim>\<open>String(v)\<close> for a defined value, also where a template or \<^verbatim>\<open>new Error(v)\<close> converts.
  On a parsed object the conversion calls the inherited \<^verbatim>\<open>toString\<close> and gives
  \<^verbatim>\<open>[object Object]\<close>, unless the object has a key \<^verbatim>\<open>toString\<close> of its own: that value
  is not callable, nor does \<^verbatim>\<open>valueOf\<close> give a primitive, and a \<^verbatim>\<open>TypeError\<close> is thrown.
  An array joins the conversions of its elements, the empty string for \<^verbatim>\<open>null\<close>.
\<close>

fun js_String :: "json \<Rightarrow> js_error + string" where
  "js_String JNull = Inr ''null''"
| "js_String (JBool b) = Inr (if b then ''true'' else ''false'')"
| "js_String (JNum nonzero text) = Inr text"
| "js_String (JStr s) = Inr s"
| "js_String (JArr xs) =
     (case sequence (map (\<lambda>x. if x = JNull then Inr [] else js_String x) xs) of
        Inl e \<Rightarrow> Inl e
      | Inr texts \<Rightarrow> Inr (join '','' texts))"
| "js_String (JObj kvs) =
     (if ''toString'' \<in> set (map fst kvs) then Inl cannot_convert else Inr ''[object Object]'')"

section \<open>Tooling support of the Grok provider\<close>

text \<open>
  Each operation of \<^verbatim>\<open>GrokToolingSupport\<close> awaits the worker call and then shapes the
  reply.  The functions below are that second half: they take what the awaited promise
  resolved with (\<open>None\<close> when the result message carried no payload).
\<close>


record tool_error =
  te_message :: string

record tool_result =
  llmContent :: string
  returnDisplay :: string
  tr_error :: "tool_error option"

record web_search_result = tool_result +
  sources :: js_value


text \<open>\<open>toToolError\<close>; its last case, \<^verbatim>\<open>String(value)\<close>, can throw.\<close>

fun toToolError :: "js_value \<Rightarrow> js_error + tool_error option" where
  "toToolError v =
     (if \<not> truthy v then Inr None
      else case v of
          Some (JStr s) \<Rightarrow> Inr (Some \<lparr>te_message = s\<rparr>)
        | Some w \<Rightarrow>
            (case get_field v ''message'' of
               Some (JStr m) \<Rightarrow> Inr (Some \<lparr>te_message = m\<rparr>)
             | _ \<Rightarrow>
                 (case js_String w of
                    Inl e \<Rightarrow> Inl e
                  | Inr text \<Rightarrow> Inr (Some \<lparr>te_message = text\<rparr>)))
        | None \<Rightarrow> Inr None)"
















section \<open>Model resolution of the Grok provider\<close>

definition DEFAULT_MODEL_ID :: string where
  "DEFAULT_MODEL_ID = ''grok-4-fast-reasoning''"

definition GROK_LEGACY_ALIASES :: "string list" where
  "GROK_LEGACY_ALIASES = [''grok-beta'', ''grok 1.5'', ''grok-1.5'', ''grok1.5'', ''grok_v1.5'']"

type_synonym environment = "string \<Rightarrow> string option"

definition normalizeModel :: "string option \<Rightarrow> string option" where
  "normalizeModel v =
     (case v of
        None \<Rightarrow> None
      | Some s \<Rightarrow>
          (let trimmed = trim s in
           if trimmed = [] then None
           else let lower = toLowerCase trimmed in
             if lower = ''auto'' then Some DEFAULT_MODEL_ID
             else if lower \<in> set GROK_LEGACY_ALIASES then Some DEFAULT_MODEL_ID
             else if \<not> startsWith lower ''grok'' then None
             else Some trimmed))"

definition getEnvModel :: "environment \<Rightarrow> string option" where
  "getEnvModel env =
     normalizeModel (case env ''GROK_MODEL'' of Some v \<Rightarrow> Some v | None \<Rightarrow> env ''GROK_MODEL_ID'')"

text \<open>
  \<open>resolveModel\<close> takes what \<^verbatim>\<open>config.getModel()\<close> returned, \<open>None\<close> when there is no
  configuration, no such method, or the method returned \<^verbatim>\<open>undefined\<close>.
\<close>

definition resolveModel :: "string option \<Rightarrow> environment \<Rightarrow> string" where
  "resolveModel configValue env =
     (case normalizeModel configValue of
        Some configModel \<Rightarrow>
          if configModel \<noteq> [] then configModel
          else (case getEnvModel env of
                  Some envModel \<Rightarrow> if envModel \<noteq> [] then envModel else DEFAULT_MODEL_ID
                | None \<Rightarrow> DEFAULT_MODEL_ID)
      | None \<Rightarrow>
          (case getEnvModel env of
             Some envModel \<Rightarrow> if envModel \<noteq> [] then envModel else DEFAULT_MODEL_ID
           | None \<Rightarrow> DEFAULT_MODEL_ID))"

text \<open>An environment with \<open>GROK_MODEL\<close> set to the empty string and the alias set.\<close>

definition blank_primary_env :: environment where
  "blank_primary_env =
     (\<lambda>k. None)(''GROK_MODEL'' := Some [], ''GROK_MODEL_ID'' := Some ''grok-3-mini'')"

section \<open>The worker bridge\<close>

text \<open>
  \<^verbatim>\<open>GrokSidecarClient\<close>.  The client owns the child process, the map of pending
  requests and the \<open>initialized\<close> flag.  Every invocation of \<open>callWithStream\<close> creates one
  result promise, one event emitter and one \<^verbatim>\<open>PendingRequest\<close> object; the model keeps
  them in one record per invocation, in the list \<open>calls\<close>, and the position in that list
  is the identity of the \<^verbatim>\<open>PendingRequest\<close> object.  The map \<open>pending\<close> is an
  association list in insertion order, as a JavaScript \<^verbatim>\<open>Map\<close> is.  Debug logging is
  left out: it changes nothing the client reads.
\<close>

definition createAbortError :: js_error where
  "createAbortError = JsError ''AbortError'' ''The operation was aborted.''"

datatype 'a promise = Pending | Fulfilled 'a | Rejected js_error

datatype stream_signal = SigEvent js_value | SigError js_error | SigEnd

record request =
  req_requestId :: string
  req_action :: string
  req_payload :: js_value

text \<open>
  The child process as the client sees it.  \<open>stdin_alive\<close> is the state of the pipe, which
  only the operating system changes; \<open>stdin_written\<close> are the requests delivered to it.
\<close>

record child_process =
  pid :: nat
  killed :: bool
  stdin_alive :: bool
  stdin_written :: "request list"

record call_rec =
  call_requestId :: string
  call_result :: "js_value promise"
  call_emitted :: "stream_signal list"
  call_error_listeners :: nat

text \<open>
  \<open>microtasks\<close> is the queue of the reactions
  \<^verbatim>\<open>resultPromise.then(finalize).catch(...)\<close> of promises that have settled;
  \<open>unhandled\<close> collects what such a reaction threw; \<open>sigterm_sent\<close> the processes that
  \<open>dispose\<close> killed; \<open>spawned\<close> counts the processes started so far.

  \<open>failed_writes\<close> are the requests written to a dead pipe.  The runtime does not throw
  from such a write: it reports the failure afterwards, as an \<^verbatim>\<open>'error'\<close> event on
  \<^verbatim>\<open>child.stdin\<close>.  \<open>uncaught\<close> is the exception that an event listener of the client let
  escape to the event loop, or that an \<^verbatim>\<open>'error'\<close> event without a listener raised
  there: the sources install no handler for it, and the runtime ends the host process.
  (What the runtime does with a rejection that nothing handles depends on its mode; the
  model only records it, in \<open>unhandled\<close>.)
\<close>

record client =
  pythonExecutable :: "string option"
  child :: "child_process option"
  pending :: "(string \<times> nat) list"
  initialized :: bool
  calls :: "call_rec list"
  microtasks :: "nat list"
  unhandled :: "js_error list"
  sigterm_sent :: "nat list"
  spawned :: nat
  failed_writes :: "request list"
  uncaught :: "js_error option"

definition new_client :: client where
  "new_client =
     \<lparr>pythonExecutable = None, child = None, pending = [], initialized = False, calls = [],
      microtasks = [], unhandled = [], sigterm_sent = [], spawned = 0, failed_writes = [],
      uncaught = None\<rparr>"

text \<open>The host: the process environment and the outcome of \<^verbatim>\<open>spawnSync(c, ['--version'])\<close>.\<close>

record host =
  host_env :: environment
  version_ok :: "string \<Rightarrow> bool"

definition resolvePythonExecutable :: "host \<Rightarrow> js_error + string" where
  "resolvePythonExecutable h =
     (let candidates =
            filter (\<lambda>c. c \<noteq> [] \<and> length (trim c) > 0)
              (List.map_filter id
                 [host_env h ''GROK_PYTHON_BIN'', host_env h ''PYTHON'',
                  Some ''python'', Some ''python3''])
      in case List.find (version_ok h) candidates of
           Some candidate \<Rightarrow> Inr candidate
         | None \<Rightarrow>
             Inl (new_Error
               ''Unable to locate a Python runtime. Set GROK_PYTHON_BIN to a Python 3.10+ executable.''))"

definition ensureProcess :: "host \<Rightarrow> client \<Rightarrow> js_error + client" where
  "ensureProcess h st =
     (case child st of
        Some c \<Rightarrow> Inr st
      | None \<Rightarrow>
          (case (case pythonExecutable st of
                   Some exe \<Rightarrow> Inr exe
                 | None \<Rightarrow> resolvePythonExecutable h) of
             Inl e \<Rightarrow> Inl e
           | Inr exe \<Rightarrow>
               Inr (st\<lparr>pythonExecutable := Some exe,
                       child := Some \<lparr>pid = spawned st, killed = False, stdin_alive = True,
                                      stdin_written = []\<rparr>,
                       spawned := Suc (spawned st)\<rparr>)))"

text \<open>
  \<^verbatim>\<open>child.stdin.write(line)\<close> on the child that the client holds: no test of the pipe
  precedes it, and the call returns normally whether or not the pipe is alive.
\<close>

definition stdin_write :: "request \<Rightarrow> client \<Rightarrow> client" where
  "stdin_write r st =
     (case child st of
        None \<Rightarrow> st
      | Some c \<Rightarrow>
          if stdin_alive c then st\<lparr>child := Some (c\<lparr>stdin_written := stdin_written c @ [r]\<rparr>)\<rparr>
          else st\<lparr>failed_writes := failed_writes st @ [r]\<rparr>)"

text \<open>
  The \<^verbatim>\<open>'error'\<close> event that the runtime emits on \<^verbatim>\<open>child.stdin\<close> after a failed write.
  Neither \<open>ensureProcess\<close> nor any other part of the client registers a listener for it,
  so the emitter throws the error to the event loop.
\<close>

definition stdin_error :: "client \<Rightarrow> client" where
  "stdin_error st =
     (if failed_writes st = [] then st else st\<lparr>uncaught := Some (new_Error ''write EPIPE'')\<rparr>)"

definition new_call :: "string \<Rightarrow> call_rec" where
  "new_call rid =
     \<lparr>call_requestId = rid, call_result = Pending, call_emitted = [], call_error_listeners = 0\<rparr>"

text \<open>
  \<open>callWithStream\<close> takes the identifier that \<^verbatim>\<open>randomUUID()\<close> returned.  It returns the
  new state and the index of the call, which stands for the returned
  \<^verbatim>\<open>{requestId, result, stream, cancel}\<close>.
\<close>

definition callWithStream ::
  "host \<Rightarrow> string \<Rightarrow> js_value \<Rightarrow> string \<Rightarrow> client \<Rightarrow> js_error + (client \<times> nat)" where
  "callWithStream h action payload requestId st =
     (case ensureProcess h st of
        Inl e \<Rightarrow> Inl e
      | Inr st1 \<Rightarrow>
          (let cid = length (calls st1);
               st2 = st1\<lparr>calls := calls st1 @ [new_call requestId],
                         pending := AList.update requestId cid (pending st1)\<rparr>;
               message = \<lparr>req_requestId = requestId, req_action = action, req_payload = payload\<rparr>
           in Inr (stdin_write message st2, cid)))"

text \<open>Settling a promise that is already settled does nothing.\<close>

definition settle :: "nat \<Rightarrow> js_value promise \<Rightarrow> client \<Rightarrow> client" where
  "settle cid outcome st =
     (if cid < length (calls st) \<and> call_result (calls st ! cid) = Pending
      then st\<lparr>calls := (calls st)[cid := (calls st ! cid)\<lparr>call_result := outcome\<rparr>],
              microtasks := microtasks st @ [cid]\<rparr>
      else st)"

definition emit :: "nat \<Rightarrow> stream_signal \<Rightarrow> client \<Rightarrow> client" where
  "emit cid sig st =
     (if cid < length (calls st)
      then st\<lparr>calls := (calls st)[cid := (calls st ! cid)
                 \<lparr>call_emitted := call_emitted (calls st ! cid) @ [sig]\<rparr>]\<rparr>
      else st)"

text \<open>
  The reaction of one settled result promise.  \<^verbatim>\<open>emit('error', e)\<close> on an emitter
  without an \<^verbatim>\<open>'error'\<close> listener throws \<open>e\<close>; the throw leaves the \<^verbatim>\<open>catch\<close> callback
  before \<open>finalize()\<close> and rejects the promise of the chain, which nothing handles.
\<close>

definition reaction :: "nat \<Rightarrow> client \<Rightarrow> client" where
  "reaction cid st =
     (if cid < length (calls st) then
        (case call_result (calls st ! cid) of
           Pending \<Rightarrow> st
         | Fulfilled v \<Rightarrow> emit cid SigEnd st
         | Rejected e \<Rightarrow>
             if call_error_listeners (calls st ! cid) = 0
             then st\<lparr>unhandled := unhandled st @ [e]\<rparr>
             else emit cid SigEnd (emit cid (SigError e) st))
      else st)"

definition run_microtask :: "client \<Rightarrow> client" where
  "run_microtask st =
     (case microtasks st of
        [] \<Rightarrow> st
      | cid # rest \<Rightarrow> reaction cid (st\<lparr>microtasks := rest\<rparr>))"

text \<open>The \<open>cancel\<close> closure of the call \<open>cid\<close>, whose request identifier is \<open>requestId\<close>.\<close>

definition cancel :: "string \<Rightarrow> nat \<Rightarrow> client \<Rightarrow> client" where
  "cancel requestId cid st =
     (case map_of (pending st) requestId of
        None \<Rightarrow> st
      | Some current \<Rightarrow>
          if current \<noteq> cid then st
          else settle cid (Rejected createAbortError)
                 (st\<lparr>pending := AList.delete requestId (pending st)\<rparr>))"

definition isSidecarMessage :: "json \<Rightarrow> bool" where
  "isSidecarMessage v =
     (truthy (Some v) \<and> is_object (Some v) \<and>
      (case get_field (Some v) ''type'' of Some (JStr t) \<Rightarrow> True | _ \<Rightarrow> False))"

text \<open>\<^verbatim>\<open>requestId ? this.pending.get(requestId) : undefined\<close>; the keys of the map are strings.\<close>

definition lookup_pending :: "client \<Rightarrow> js_value \<Rightarrow> (string \<times> nat) option" where
  "lookup_pending st requestId =
     (case requestId of
        Some (JStr s) \<Rightarrow>
          (if s \<noteq> [] then map_option (\<lambda>cid. (s, cid)) (map_of (pending st) s) else None)
      | _ \<Rightarrow> None)"

text \<open>
  The text of \<^verbatim>\<open>new Error(message.error?.message || 'Unknown sidecar error')\<close>: the
  constructor converts its argument to a string, which can throw.
\<close>

definition sidecar_error_message :: "json \<Rightarrow> js_error + string" where
  "sidecar_error_message message =
     (let m = get_field (get_field (Some message) ''error'') ''message''
      in case m of
           Some v \<Rightarrow> if truthy m then js_String v else Inr ''Unknown sidecar error''
         | None \<Rightarrow> Inr ''Unknown sidecar error'')"

text \<open>
  \<open>handleLine\<close> takes the outcome of \<^verbatim>\<open>JSON.parse(line)\<close>, \<open>None\<close> when it threw.  It runs
  as the \<^verbatim>\<open>'line'\<close> listener of the reader of the child's output, so what it throws is
  uncaught.  In the \<open>error\<close> case the entry is deleted before the error is built: where
  building it throws, the promise of the call is left pending without an entry.
\<close>

definition handleLine :: "json option \<Rightarrow> client \<Rightarrow> client" where
  "handleLine parsed st =
     (case parsed of
        None \<Rightarrow> st
      | Some message \<Rightarrow>
          if \<not> isSidecarMessage message then st
          else
            (let found = lookup_pending st (get_field (Some message) ''requestId'');
                 ty = (case get_field (Some message) ''type'' of Some (JStr t) \<Rightarrow> t | _ \<Rightarrow> [])
             in if ty = ''event'' then
                  (case found of
                     None \<Rightarrow> st
                   | Some (rid, cid) \<Rightarrow> emit cid (SigEvent (get_field (Some message) ''payload'')) st)
                else if ty = ''result'' then
                  (case found of
                     None \<Rightarrow> st
                   | Some (rid, cid) \<Rightarrow>
                       settle cid (Fulfilled (get_field (Some message) ''payload''))
                         (st\<lparr>pending := AList.delete rid (pending st)\<rparr>))
                else if ty = ''error'' then
                  (case found of
                     None \<Rightarrow> st
                   | Some (rid, cid) \<Rightarrow>
                       (case sidecar_error_message message of
                          Inl e \<Rightarrow>
                            st\<lparr>pending := AList.delete rid (pending st), uncaught := Some e\<rparr>
                        | Inr text \<Rightarrow>
                            settle cid (Rejected (new_Error text))
                              (st\<lparr>pending := AList.delete rid (pending st)\<rparr>)))
                else st))"

text \<open>\<^verbatim>\<open>this.pending.forEach(({ reject }) => reject(reason))\<close>\<close>

definition reject_all :: "js_error \<Rightarrow> client \<Rightarrow> client" where
  "reject_all reason st = foldl (\<lambda>s entry. settle (snd entry) (Rejected reason) s) st (pending st)"

definition exit_reason :: "int option \<Rightarrow> string option \<Rightarrow> js_error" where
  "exit_reason code signal =
     (case signal of
        Some sg \<Rightarrow> new_Error (''Sidecar exited due to signal '' @ sg)
      | None \<Rightarrow>
          new_Error (''Sidecar exited with code '' @
                     (case code of None \<Rightarrow> ''null'' | Some c \<Rightarrow> show_int c)))"

text \<open>
  The handler of the \<^verbatim>\<open>'exit'\<close> event of a spawned child; its body does not look at
  which child exited.
\<close>

definition on_exit :: "int option \<Rightarrow> string option \<Rightarrow> client \<Rightarrow> client" where
  "on_exit code signal st =
     (reject_all (exit_reason code signal) st)
       \<lparr>pending := [], child := None, initialized := False\<rparr>"

definition dispose :: "client \<Rightarrow> client" where
  "dispose st =
     (let st1 = st\<lparr>initialized := False\<rparr>;
          st2 = (case child st1 of
                   Some c \<Rightarrow>
                     if \<not> killed c then st1\<lparr>sigterm_sent := sigterm_sent st1 @ [pid c]\<rparr> else st1
                 | None \<Rightarrow> st1);
          st3 = st2\<lparr>child := None\<rparr>
      in (reject_all (new_Error ''Sidecar process terminated'') st3)\<lparr>pending := []\<rparr>)"

subsection \<open>The asynchronous methods\<close>

text \<open>
  An \<^verbatim>\<open>async\<close> method that awaits a worker call runs in two parts: the part up to the
  \<^verbatim>\<open>await\<close>, and the part after it, which can run only once the awaited promise has
  settled.  \<open>Awaiting cid\<close> says that the method is suspended on the result promise of
  the call \<open>cid\<close>.
\<close>

datatype async_status = Returned | Threw js_error | Awaiting nat

record initialize_payload =
  apiKey :: "string option"
  api_key :: "string option"
  model :: "string option"
  pythonPath :: "string option"

definition initialize_json :: "initialize_payload \<Rightarrow> json" where
  "initialize_json p =
     JObj (List.map_filter (\<lambda>(k, v). map_option (\<lambda>s. (k, JStr s)) v)
             [(''apiKey'', apiKey p), (''api_key'', api_key p),
              (''model'', model p), (''pythonPath'', pythonPath p)])"

definition ensureInitialised_begin ::
  "host \<Rightarrow> initialize_payload \<Rightarrow> string \<Rightarrow> client \<Rightarrow> async_status \<times> client" where
  "ensureInitialised_begin h payload requestId st =
     (if initialized st then (Returned, st)
      else if apiKey payload = None \<or> apiKey payload = Some [] then
        (Threw (new_Error ''GROK_API_KEY is required to use the Grok model provider.''), st)
      else
        (case callWithStream h ''initialize'' (Some (initialize_json payload)) requestId st of
           Inl e \<Rightarrow> (Threw e, st)
         | Inr (st', cid) \<Rightarrow> (Awaiting cid, st')))"

definition ensureInitialised_resume :: "nat \<Rightarrow> client \<Rightarrow> async_status \<times> client" where
  "ensureInitialised_resume cid st =
     (case call_result (calls st ! cid) of
        Pending \<Rightarrow> (Awaiting cid, st)
      | Rejected e \<Rightarrow> (Threw e, st)
      | Fulfilled result \<Rightarrow>
          (Returned, if truthy result \<and> is_object result then st\<lparr>initialized := True\<rparr> else st))"

definition shutdown_begin :: "host \<Rightarrow> string \<Rightarrow> client \<Rightarrow> async_status \<times> client" where
  "shutdown_begin h requestId st =
     (case callWithStream h ''shutdown'' (Some (JObj [])) requestId st of
        Inl e \<Rightarrow> (Returned, dispose st)
      | Inr (st', cid) \<Rightarrow> (Awaiting cid, st'))"

definition shutdown_resume :: "nat \<Rightarrow> client \<Rightarrow> async_status \<times> client" where
  "shutdown_resume cid st =
     (case call_result (calls st ! cid) of
        Pending \<Rightarrow> (Awaiting cid, st)
      | _ \<Rightarrow> (Returned, dispose st))"

subsection \<open>Runs of the client\<close>

text \<open>
  What can happen to a client, one at a time on the event loop: a call, the \<open>cancel\<close>
  closure of an earlier call, a line from the worker, the exit of a child, \<open>dispose\<close>,
  one promise reaction, a consumer adding or removing an \<^verbatim>\<open>'error'\<close> listener on the
  emitter of a call, the pipe to the child breaking, the \<^verbatim>\<open>'error'\<close> event of a failed
  write, a timer tick (the client sets no timer, so nothing happens), and the two halves
  of \<open>ensureInitialised\<close> and \<open>shutdown\<close>.
\<close>

datatype client_op =
    OpCall string js_value string
  | OpCancel nat
  | OpLine "json option"
  | OpExit "int option" "string option"
  | OpDispose
  | OpMicrotask
  | OpListen nat
  | OpUnlisten nat
  | OpStdinDead
  | OpStdinError
  | OpTick
  | OpInitBegin initialize_payload string
  | OpInitResume nat
  | OpShutdownBegin string
  | OpShutdownResume nat

definition set_listeners :: "nat \<Rightarrow> (nat \<Rightarrow> nat) \<Rightarrow> client \<Rightarrow> client" where
  "set_listeners cid f st =
     (if cid < length (calls st)
      then st\<lparr>calls := (calls st)[cid := (calls st ! cid)
                 \<lparr>call_error_listeners := f (call_error_listeners (calls st ! cid))\<rparr>]\<rparr>
      else st)"

text \<open>
  \<^verbatim>\<open>randomUUID()\<close> does not return an identifier that it has returned before: an
  operation that hands such an identifier to \<open>callWithStream\<close> is not one of the program,
  and \<open>step\<close> passes over it.
\<close>

definition issued :: "string \<Rightarrow> client \<Rightarrow> bool" where
  "issued rid st = (rid \<in> set (map call_requestId (calls st)))"

fun step :: "host \<Rightarrow> client_op \<Rightarrow> client \<Rightarrow> client" where
  "step h (OpCall action payload rid) st =
     (if issued rid st then st
      else case callWithStream h action payload rid st of Inl e \<Rightarrow> st | Inr (st', cid) \<Rightarrow> st')"
| "step h (OpCancel cid) st =
     (if cid < length (calls st) then cancel (call_requestId (calls st ! cid)) cid st else st)"
| "step h (OpLine parsed) st = handleLine parsed st"
| "step h (OpExit code signal) st = on_exit code signal st"
| "step h OpDispose st = dispose st"
| "step h OpMicrotask st = run_microtask st"
| "step h (OpListen cid) st = set_listeners cid Suc st"
| "step h (OpUnlisten cid) st = set_listeners cid (\<lambda>n. n - 1) st"
| "step h OpStdinDead st = st\<lparr>child := map_option (\<lambda>c. c\<lparr>stdin_alive := False\<rparr>) (child st)\<rparr>"
| "step h OpStdinError st = stdin_error st"
| "step h OpTick st = st"
| "step h (OpInitBegin payload rid) st =
     (if issued rid st then st else snd (ensureInitialised_begin h payload rid st))"
| "step h (OpInitResume cid) st =
     (if cid < length (calls st) then snd (ensureInitialised_resume cid st) else st)"
| "step h (OpShutdownBegin rid) st =
     (if issued rid st then st else snd (shutdown_begin h rid st))"
| "step h (OpShutdownResume cid) st =
     (if cid < length (calls st) then snd (shutdown_resume cid st) else st)"

text \<open>Nothing happens in a host that an uncaught exception has ended.\<close>

definition apply_op :: "host \<Rightarrow> client_op \<Rightarrow> client \<Rightarrow> client" where
  "apply_op h op st = (if uncaught st \<noteq> None then st else step h op st)"

definition run :: "host \<Rightarrow> client_op list \<Rightarrow> client \<Rightarrow> client" where
  "run h ops st = foldl (\<lambda>s op. apply_op h op s) st ops"

subsection \<open>Invariants of the client\<close>

text \<open>
  Every entry of the pending map points to a call whose promise is still pending and
  whose request identifier is the key of the entry.
\<close>

definition wf_client :: "client \<Rightarrow> bool" where
  "wf_client st = (\<forall>(rid, cid) \<in> set (pending st).
       cid < length (calls st) \<and> call_result (calls st ! cid) = Pending \<and>
       call_requestId (calls st ! cid) = rid)"

text \<open>A client that has a child, or has made a call, has found its Python runtime.\<close>

definition runtime_known :: "client \<Rightarrow> bool" where
  "runtime_known st = (child st \<noteq> None \<or> 0 < length (calls st) \<longrightarrow> pythonExecutable st \<noteq> None)"

text \<open>
  The operations that cannot settle the call \<open>cid\<close> made under the identifier \<open>rid\<close>:
  everything but its own \<open>cancel\<close>, a line that bears its identifier, the exit of a
  child, \<open>dispose\<close> and \<open>shutdown\<close>.
\<close>

fun leaves_pending :: "string \<Rightarrow> nat \<Rightarrow> client_op \<Rightarrow> bool" where
  "leaves_pending rid cid (OpCall action payload r) = (r \<noteq> rid)"
| "leaves_pending rid cid (OpCancel c) = (c \<noteq> cid)"
| "leaves_pending rid cid (OpLine parsed) = (get_field parsed ''requestId'' \<noteq> Some (JStr rid))"
| "leaves_pending rid cid (OpExit code signal) = False"
| "leaves_pending rid cid OpDispose = False"
| "leaves_pending rid cid (OpInitBegin payload r) = (r \<noteq> rid)"
| "leaves_pending rid cid (OpShutdownBegin r) = False"
| "leaves_pending rid cid (OpShutdownResume c) = False"
| "leaves_pending rid cid _ = True"

text \<open>
  For every call, the reactions still queued for it and the end-of-stream signals already
  emitted on its emitter number at most one together, and none while its promise is pending.
\<close>

definition end_count :: "client \<Rightarrow> nat \<Rightarrow> nat" where
  "end_count st c = count_list (microtasks st) c + count_list (call_emitted (calls st ! c)) SigEnd"

definition end_inv :: "client \<Rightarrow> bool" where
  "end_inv st =
     ((\<forall>c \<in> set (microtasks st). c < length (calls st)) \<and>
      (\<forall>c < length (calls st).
         end_count st c \<le> 1 \<and> (call_result (calls st ! c) = Pending \<longrightarrow> end_count st c = 0)))"

subsection \<open>Example inputs for the client\<close>

definition example_host :: host where
  "example_host = \<lparr>host_env = (\<lambda>k. None), version_ok = (\<lambda>c. True)\<rparr>"

definition event_line :: "string \<Rightarrow> js_value \<Rightarrow> json" where
  "event_line rid payload =
     JObj ([(''type'', JStr ''event''), (''requestId'', JStr rid)] @
           (case payload of Some p \<Rightarrow> [(''payload'', p)] | None \<Rightarrow> []))"

definition result_line :: "string \<Rightarrow> js_value \<Rightarrow> json" where
  "result_line rid payload =
     JObj ([(''type'', JStr ''result''), (''requestId'', JStr rid)] @
           (case payload of Some p \<Rightarrow> [(''payload'', p)] | None \<Rightarrow> []))"

text \<open>
  One pending call; and what follows its end: a second call, then an attempt to hand the
  first identifier to a call again, which \<open>step\<close> passes over.
\<close>

definition one_call_run :: "client_op list" where
  "one_call_run = [OpCall ''chat'' None ''r1'']"

definition later_call_run :: "client_op list" where
  "later_call_run = [OpCall ''chat'' None ''r2'', OpCall ''chat'' None ''r1'']"

definition shutdown_sent_run :: "client_op list" where
  "shutdown_sent_run = [OpCall ''chat'' None ''r1'', OpCall ''shutdown'' (Some (JObj [])) ''s1'']"

definition late_reply :: json where
  "late_reply = JObj [(''type'', JStr ''result''), (''requestId'', JStr ''r1''),
                      (''payload'', JObj [])]"

definition error_reply :: json where
  "error_reply = JObj [(''type'', JStr ''error''), (''requestId'', JStr ''r1''),
                       (''error'', JObj [(''message'', JStr ''boom'')])]"

text \<open>
  A \<open>chat\<close> call that the worker answers with an error: with nobody listening on the
  emitter, and with an \<^verbatim>\<open>'error'\<close> listener.  And a streamed call whose consumer has
  removed its listeners before the worker exits.
\<close>

definition unheard_error_run :: "client_op list" where
  "unheard_error_run = [OpCall ''chat'' None ''r1'', OpLine (Some error_reply), OpMicrotask]"

definition heard_error_run :: "client_op list" where
  "heard_error_run =
     [OpCall ''chat'' None ''r1'', OpListen 0, OpLine (Some error_reply), OpMicrotask]"

definition abandoned_stream_run :: "client_op list" where
  "abandoned_stream_run =
     [OpCall ''chat'' None ''r1'', OpListen 0, OpLine (Some (event_line ''r1'' None)),
      OpUnlisten 0, OpExit (Some 1) None, OpMicrotask]"

definition shutdown_reply :: json where
  "shutdown_reply = result_line ''s1'' (Some (JObj []))"

definition dead_stdin_run :: "client_op list" where
  "dead_stdin_run =
     [OpCall ''chat'' None ''r1'', OpStdinDead, OpCall ''chat'' None ''r2'', OpMicrotask,
      OpStdinError, OpExit (Some 1) None, OpMicrotask]"

definition example_credentials :: initialize_payload where
  "example_credentials = \<lparr>apiKey = Some ''key'', api_key = Some ''key'', model = None, pythonPath = None\<rparr>"

definition null_result_reply :: json where
  "null_result_reply = JObj [(''type'', JStr ''result''), (''requestId'', JStr ''i1''), (''payload'', JNull)]"

definition object_result_reply :: json where
  "object_result_reply = result_line ''i1'' (Some (JObj [(''capabilities'', JArr [])]))"

definition first_initialise_run :: "client_op list" where
  "first_initialise_run = [OpInitBegin example_credentials ''i1'', OpLine (Some null_result_reply), OpMicrotask]"

section \<open>The content generator over a worker chat stream\<close>

text \<open>
  \<^verbatim>\<open>GrokContentGenerator.createStreamGenerator\<close> adapts the emitter and the result
  promise of a \<open>chat\<close> call to an async generator.  \<^verbatim>\<open>JSON.parse\<close> and
  \<^verbatim>\<open>JSON.stringify\<close> are parameters: \<open>parse\<close> gives \<open>None\<close> where parsing throws.
\<close>

record tool_call =
  tc_callId :: string
  tc_name :: string
  tc_args :: js_value
  tc_functionCall_id :: "string option"
  tc_functionCall_args :: json

record terminal_response =
  term_parts :: "json list"
  term_usageMetadata :: js_value

datatype chunk =
    TextChunk string
  | ToolCallChunk tool_call
  | TerminalChunk terminal_response

text \<open>\<^verbatim>\<open>String(v ?? '')\<close>\<close>

definition string_or_empty :: "js_value \<Rightarrow> js_error + string" where
  "string_or_empty v =
     (case nullish_or v (Some (JStr [])) of Some w \<Rightarrow> js_String w | None \<Rightarrow> Inr [])"

definition tool_call_of ::
  "(string \<Rightarrow> json option) \<Rightarrow> js_value \<Rightarrow> js_error + tool_call" where
  "tool_call_of parse payload =
     (case string_or_empty (get_field payload ''callId'') of
        Inl e \<Rightarrow> Inl e
      | Inr callId \<Rightarrow>
          (case string_or_empty (get_field payload ''name'') of
             Inl e \<Rightarrow> Inl e
           | Inr name \<Rightarrow>
               (let rawArgs = get_field payload ''arguments'';
                    args = (case rawArgs of
                              Some (JStr s) \<Rightarrow> (case parse s of Some v \<Rightarrow> Some v | None \<Rightarrow> rawArgs)
                            | _ \<Rightarrow> rawArgs)
                in Inr \<lparr>tc_callId = callId, tc_name = name, tc_args = args,
                        tc_functionCall_id = (if callId \<noteq> [] then Some callId else None),
                        tc_functionCall_args =
                          (if is_object args then (case args of Some v \<Rightarrow> v | None \<Rightarrow> JObj [])
                           else JObj (case args of Some v \<Rightarrow> [(''value'', v)] | None \<Rightarrow> []))\<rparr>)))"

text \<open>
  One turn of the loop body on a payload taken from the queue: the chunk it yields,
  \<open>None\<close> when the body reaches \<^verbatim>\<open>continue\<close> or its end without yielding, or the error
  that one of its conversions to a string throws.
\<close>

definition event_chunk ::
  "(string \<Rightarrow> json option) \<Rightarrow> js_value \<Rightarrow> js_error + chunk option" where
  "event_chunk parse payload =
     (if \<not> truthy payload then Inr None
      else case string_or_empty (get_field payload ''event'') of
          Inl e \<Rightarrow> Inl e
        | Inr eventType \<Rightarrow>
            if eventType = ''delta'' then
              (case string_or_empty (get_field payload ''text'') of
                 Inl e \<Rightarrow> Inl e
               | Inr text \<Rightarrow> if text = [] then Inr None else Inr (Some (TextChunk text)))
            else if eventType = ''toolCall'' then
              (case tool_call_of parse payload of
                 Inl e \<Rightarrow> Inl e
               | Inr call \<Rightarrow> Inr (Some (ToolCallChunk call)))
            else Inr None)"

definition text_part :: "(json \<Rightarrow> string) \<Rightarrow> json \<Rightarrow> json" where
  "text_part stringify candidate =
     (if get_field (Some candidate) ''type'' = Some (JStr ''text'') \<or>
         (case get_field (Some candidate) ''text'' of Some (JStr t) \<Rightarrow> True | _ \<Rightarrow> False)
      then (case nullish_or (get_field (Some candidate) ''text'') (Some (JStr [])) of
              Some t \<Rightarrow> t | None \<Rightarrow> JStr [])
      else JStr (stringify candidate))"

text \<open>
  \<open>toGenerateContentResponse\<close>.  Reading \<^verbatim>\<open>response.message\<close> throws a \<^verbatim>\<open>TypeError\<close>
  when the result payload is \<^verbatim>\<open>undefined\<close> or \<^verbatim>\<open>null\<close>, and so does
  \<^verbatim>\<open>content.filter\<close> when the content is a truthy value that is not an array.
\<close>

definition toGenerateContentResponse ::
  "(json \<Rightarrow> string) \<Rightarrow> js_value \<Rightarrow> js_error + terminal_response" where
  "toGenerateContentResponse stringify response =
     (if response = None then
        Inl (JsError ''TypeError'' ''Cannot read properties of undefined (reading 'message')'')
      else if response = Some JNull then
        Inl (JsError ''TypeError'' ''Cannot read properties of null (reading 'message')'')
      else
        (let c = get_field (get_field response ''message'') ''content'';
             content = (if truthy c then c else Some (JArr []))
         in case content of
              Some (JArr xs) \<Rightarrow>
                (let textParts = map (text_part stringify) (filter (\<lambda>part. is_object (Some part)) xs)
                 in Inr \<lparr>term_parts = (if textParts = [] then [JStr []] else textParts),
                         term_usageMetadata = get_field response ''usage''\<rparr>)
            | _ \<Rightarrow> Inl (JsError ''TypeError'' ''content.filter is not a function'')))"

text \<open>
  The state that the listeners and the generator body share, and the place where the
  body is suspended.  \<open>pendingResolve\<close> is set while the promise of \<open>waitForNext\<close> is
  unresolved; \<open>listening\<close> is cleared by the \<^verbatim>\<open>finally\<close> block.
\<close>

datatype gen_phase = Running | Waiting | AwaitingResult | YieldedTerminal | Closed

record generator =
  queue :: "js_value list"
  ended :: bool
  pendingResolve :: bool
  errorFromStream :: "js_error option"
  listening :: bool
  phase :: gen_phase

definition createStreamGenerator :: generator where
  "createStreamGenerator =
     \<lparr>queue = [], ended = False, pendingResolve = False, errorFromStream = None,
      listening = True, phase = Running\<rparr>"

definition onEvent :: "js_value \<Rightarrow> generator \<Rightarrow> generator" where
  "onEvent payload g = g\<lparr>queue := queue g @ [payload], pendingResolve := False\<rparr>"

definition onEnd :: "generator \<Rightarrow> generator" where
  "onEnd g = g\<lparr>ended := True, pendingResolve := False\<rparr>"

definition onError :: "js_error \<Rightarrow> generator \<Rightarrow> generator" where
  "onError e g = g\<lparr>errorFromStream := Some e, ended := True, pendingResolve := False\<rparr>"

fun deliver :: "stream_signal \<Rightarrow> generator \<Rightarrow> generator" where
  "deliver (SigEvent payload) g = (if listening g then onEvent payload g else g)"
| "deliver SigEnd g = (if listening g then onEnd g else g)"
| "deliver (SigError e) g = (if listening g then onError e g else g)"

datatype step_result = Yield chunk | Blocked | Throw js_error | Done

definition close :: "generator \<Rightarrow> generator" where
  "close g = g\<lparr>listening := False, phase := Closed\<rparr>"

text \<open>\<^verbatim>\<open>const response = await resultPromise; yield toGenerateContentResponse(response)\<close>\<close>

definition await_result ::
  "(json \<Rightarrow> string) \<Rightarrow> js_value promise \<Rightarrow> generator \<Rightarrow> step_result \<times> generator" where
  "await_result stringify result g =
     (case result of
        Pending \<Rightarrow> (Blocked, g\<lparr>phase := AwaitingResult\<rparr>)
      | Rejected e \<Rightarrow> (Throw e, close g)
      | Fulfilled response \<Rightarrow>
          (case toGenerateContentResponse stringify response of
             Inl e \<Rightarrow> (Throw e, close g)
           | Inr t \<Rightarrow> (Yield (TerminalChunk t), g\<lparr>phase := YieldedTerminal\<rparr>)))"

text \<open>
  The queue is shifted until a payload yields a chunk or the conversion of a payload
  throws; what is left of the queue comes with either outcome.
\<close>

datatype taken = Took chunk "js_value list" | Drained | Failed js_error "js_value list"

fun take_event :: "(string \<Rightarrow> json option) \<Rightarrow> js_value list \<Rightarrow> taken" where
  "take_event parse [] = Drained"
| "take_event parse (payload # rest) =
     (case event_chunk parse payload of
        Inl e \<Rightarrow> Failed e rest
      | Inr (Some c) \<Rightarrow> Took c rest
      | Inr None \<Rightarrow> take_event parse rest)"

text \<open>
  From the head of the loop.  With an empty queue the body calls \<open>waitForNext\<close>, whose
  promise is resolved at once when the stream has ended; then the error is thrown, or
  the loop is left.  An error thrown in the body leaves through the \<^verbatim>\<open>finally\<close> block.
\<close>

definition loop_top ::
  "(string \<Rightarrow> json option) \<Rightarrow> (json \<Rightarrow> string) \<Rightarrow> js_value promise \<Rightarrow> generator
     \<Rightarrow> step_result \<times> generator" where
  "loop_top parse stringify result g =
     (case take_event parse (queue g) of
        Took c rest \<Rightarrow> (Yield c, g\<lparr>queue := rest, phase := Running\<rparr>)
      | Failed e rest \<Rightarrow> (Throw e, close (g\<lparr>queue := rest\<rparr>))
      | Drained \<Rightarrow>
          (let g' = g\<lparr>queue := []\<rparr> in
           if \<not> ended g' then (Blocked, g'\<lparr>phase := Waiting, pendingResolve := True\<rparr>)
           else (case errorFromStream g' of
                   Some e \<Rightarrow> (Throw e, close g')
                 | None \<Rightarrow> await_result stringify result g')))"

text \<open>The body resumes after \<^verbatim>\<open>await waitForNext()\<close>.\<close>

definition resume_wait ::
  "(string \<Rightarrow> json option) \<Rightarrow> (json \<Rightarrow> string) \<Rightarrow> js_value promise \<Rightarrow> generator
     \<Rightarrow> step_result \<times> generator" where
  "resume_wait parse stringify result g =
     (if pendingResolve g then (Blocked, g)
      else (case errorFromStream g of
              Some e \<Rightarrow> (Throw e, close g)
            | None \<Rightarrow>
                if queue g = [] \<and> ended g then await_result stringify result g
                else loop_top parse stringify result g))"

text \<open>
  One request of the consumer for the next element, or the resumption of a request that
  was blocked: the body runs until it yields, throws, returns or is suspended.
\<close>

definition pull ::
  "(string \<Rightarrow> json option) \<Rightarrow> (json \<Rightarrow> string) \<Rightarrow> js_value promise \<Rightarrow> generator
     \<Rightarrow> step_result \<times> generator" where
  "pull parse stringify result g =
     (case phase g of
        Running \<Rightarrow> loop_top parse stringify result g
      | Waiting \<Rightarrow> resume_wait parse stringify result g
      | AwaitingResult \<Rightarrow> await_result stringify result g
      | YieldedTerminal \<Rightarrow> (Done, close g)
      | Closed \<Rightarrow> (Done, g))"

subsection \<open>A generator driven by its stream and its consumer\<close>

datatype gen_action = Deliver stream_signal | Settle "js_value promise" | Next

record session =
  result_promise :: "js_value promise"
  gen :: generator
  outputs :: "step_result list"

definition new_session :: session where
  "new_session = \<lparr>result_promise = Pending, gen = createStreamGenerator, outputs = []\<rparr>"

fun gen_step ::
  "(string \<Rightarrow> json option) \<Rightarrow> (json \<Rightarrow> string) \<Rightarrow> gen_action \<Rightarrow> session \<Rightarrow> session" where
  "gen_step parse stringify (Deliver sig) s = s\<lparr>gen := deliver sig (gen s)\<rparr>"
| "gen_step parse stringify (Settle outcome) s =
     (if result_promise s = Pending then s\<lparr>result_promise := outcome\<rparr> else s)"
| "gen_step parse stringify Next s =
     (case pull parse stringify (result_promise s) (gen s) of
        (r, g') \<Rightarrow> s\<lparr>gen := g', outputs := (if r = Blocked then outputs s else outputs s @ [r])\<rparr>)"

definition drive ::
  "(string \<Rightarrow> json option) \<Rightarrow> (json \<Rightarrow> string) \<Rightarrow> gen_action list \<Rightarrow> session \<Rightarrow> session" where
  "drive parse stringify acts s = foldl (\<lambda>s a. gen_step parse stringify a s) s acts"



text \<open>What the stream of a call does, seen from the generator, without the consumer.\<close>

definition stream_of :: "gen_action list \<Rightarrow> gen_action list" where
  "stream_of acts = filter (\<lambda>a. a \<noteq> Next) acts"

text \<open>The stream of a call that ends with a result, and of one that ends with an error.\<close>

definition normal_stream :: "js_value list \<Rightarrow> js_value \<Rightarrow> gen_action list" where
  "normal_stream events response =
     map (\<lambda>p. Deliver (SigEvent p)) events @ [Settle (Fulfilled response), Deliver SigEnd]"

definition failed_stream :: "js_value list \<Rightarrow> js_error \<Rightarrow> gen_action list" where
  "failed_stream events e =
     map (\<lambda>p. Deliver (SigEvent p)) events @ [Settle (Rejected e), Deliver (SigError e), Deliver SigEnd]"

subsection \<open>Expected chunks and invariants of a driven generator\<close>

text \<open>A payload whose turn of the loop body does not throw.\<close>

definition convertible :: "(string \<Rightarrow> json option) \<Rightarrow> js_value \<Rightarrow> bool" where
  "convertible parse payload = (case event_chunk parse payload of Inl e \<Rightarrow> False | Inr c \<Rightarrow> True)"





fun event_count :: "gen_action list \<Rightarrow> nat" where
  "event_count [] = 0"
| "event_count (Deliver (SigEvent p) # rest) = Suc (event_count rest)"
| "event_count (a # rest) = event_count rest"






subsection \<open>Example inputs for the generator\<close>

definition example_parse :: "string \<Rightarrow> json option" where
  "example_parse s = None"

definition example_stringify :: "json \<Rightarrow> string" where
  "example_stringify j = ''{}''"

definition delta :: "string \<Rightarrow> js_value" where
  "delta t = Some (JObj [(''event'', JStr ''delta''), (''text'', JStr t)])"

definition usage10 :: json where
  "usage10 = JObj [(''totalTokens'', JNum True ''10'')]"

definition chat_result :: "json \<Rightarrow> js_value" where
  "chat_result message = Some (JObj [(''message'', message), (''usage'', usage10)])"



definition unprintable_event :: js_value where
  "unprintable_event = Some (JObj [(''event'', JObj [(''toString'', JNum True ''1'')])])"

definition unprintable_consumer :: "gen_action list" where
  "unprintable_consumer =
     [Deliver (SigEvent unprintable_event), Next,
      Settle (Fulfilled (chat_result (JObj []))), Deliver SigEnd]"


section \<open>Properties of the tooling support\<close>


text \<open>\<^verbatim>\<open>String\<close> throws on objects and arrays only, so \<open>toToolError\<close> returns on the rest.\<close>

lemma js_String_primitive: "\<not> is_object (Some w) \<Longrightarrow> \<exists>str. js_String w = Inr str"
  by (cases w) simp_all

lemma toToolError_returns:
  assumes "\<not> is_object v \<or> (\<exists>m. get_field v ''message'' = Some (JStr m))"
  shows "\<exists>err. toToolError v = Inr err"
proof (cases v)
  case None
  then show ?thesis by simp
next
  case (Some w)
  from assms show ?thesis
  proof
    assume n: "\<not> is_object v"
    then obtain str where s: "js_String w = Inr str"
      using js_String_primitive Some by blast
    show ?thesis
      using Some n s by (cases w) simp_all
  next
    assume "\<exists>m. get_field v ''message'' = Some (JStr m)"
    then show ?thesis
      using Some by (auto split: json.splits option.splits)
  qed
qed






section \<open>Properties of the model resolution\<close>

lemma normalizeModel_nonempty: "normalizeModel v = Some m \<Longrightarrow> m \<noteq> []"
  by (auto simp: normalizeModel_def Let_def DEFAULT_MODEL_ID_def split: option.splits if_splits)

lemma resolveModel_config_first: "normalizeModel c = Some m \<Longrightarrow> resolveModel c env = m"
  using normalizeModel_nonempty [of c m] by (simp add: resolveModel_def)

lemma resolveModel_primary_second:
  "normalizeModel c = None \<Longrightarrow> env ''GROK_MODEL'' = Some v \<Longrightarrow> normalizeModel (Some v) = Some m
     \<Longrightarrow> resolveModel c env = m"
  using normalizeModel_nonempty [of "Some v" m] by (simp add: resolveModel_def getEnvModel_def)

lemma resolveModel_alias_when_primary_unset:
  "normalizeModel c = None \<Longrightarrow> env ''GROK_MODEL'' = None
     \<Longrightarrow> normalizeModel (env ''GROK_MODEL_ID'') = Some m \<Longrightarrow> resolveModel c env = m"
  using normalizeModel_nonempty [of "env ''GROK_MODEL_ID''" m]
  by (simp add: resolveModel_def getEnvModel_def)

text \<open>
  C9. The claim asks for the secondary alias \<open>GROK_MODEL_ID\<close> whenever the configuration
  value and \<open>GROK_MODEL\<close> give no usable model.  With no configuration value,
  \<open>GROK_MODEL\<close> set to the empty string and \<open>GROK_MODEL_ID\<close> set to \<open>grok-3-mini\<close>, the
  alias is usable, yet \<open>resolveModel\<close> returns the built-in default: \<open>getEnvModel\<close> chooses
  between the two variables before it normalises.
\<close>

theorem resolveModel_skips_alias_after_blank_primary:
  "blank_primary_env ''GROK_MODEL'' = Some [] \<and>
   blank_primary_env ''GROK_MODEL_ID'' = Some ''grok-3-mini'' \<and>
   normalizeModel (Some []) = None \<and>
   normalizeModel (Some ''grok-3-mini'') = Some ''grok-3-mini'' \<and>
   resolveModel None blank_primary_env = ''grok-4-fast-reasoning''"
  by (simp add: blank_primary_env_def resolveModel_def getEnvModel_def normalizeModel_def
      trim_def space1_def space2_def space3_def lower_char_def startsWith_def
      GROK_LEGACY_ALIASES_def DEFAULT_MODEL_ID_def)

section \<open>Properties of the worker bridge\<close>

lemma example_host_runtime: "resolvePythonExecutable example_host = Inr ''python''"
  by (simp add: resolvePythonExecutable_def example_host_def List.map_filter_simps trim_def
      space1_def space2_def space3_def)

lemmas client_eval = run_def callWithStream_def ensureProcess_def example_host_runtime
  new_client_def Let_def apply_op_def issued_def stdin_error_def stdin_write_def new_call_def handleLine_def isSidecarMessage_def lookup_pending_def obj_get_def
  settle_def emit_def run_microtask_def reaction_def new_Error_def sidecar_error_message_def
  cancel_def on_exit_def dispose_def reject_all_def

subsection \<open>Settling, emitting and the invariants\<close>

lemma settle_fields [simp]:
  "pending (settle cid outcome st) = pending st"
  "child (settle cid outcome st) = child st"
  "initialized (settle cid outcome st) = initialized st"
  "pythonExecutable (settle cid outcome st) = pythonExecutable st"
  "spawned (settle cid outcome st) = spawned st"
  "sigterm_sent (settle cid outcome st) = sigterm_sent st"
  "unhandled (settle cid outcome st) = unhandled st"
  "length (calls (settle cid outcome st)) = length (calls st)"
  "failed_writes (settle cid outcome st) = failed_writes st"
  "uncaught (settle cid outcome st) = uncaught st"
  by (simp_all add: settle_def)

lemma settle_ids [simp]:
  "map call_requestId (calls (settle cid outcome st)) = map call_requestId (calls st)"
  by (simp add: settle_def map_update list_update_same_conv)

lemma settle_call:
  "c < length (calls st) \<Longrightarrow>
   calls (settle cid outcome st) ! c =
     (if c = cid \<and> call_result (calls st ! cid) = Pending
      then (calls st ! c)\<lparr>call_result := outcome\<rparr> else calls st ! c)"
  by (simp add: settle_def nth_list_update)

lemma settle_requestId [simp]:
  "c < length (calls st) \<Longrightarrow> call_requestId (calls (settle cid outcome st) ! c) = call_requestId (calls st ! c)"
  by (simp add: settle_call)

lemma settle_result:
  "c < length (calls st) \<Longrightarrow>
   call_result (calls (settle cid outcome st) ! c) =
     (if c = cid \<and> call_result (calls st ! cid) = Pending then outcome else call_result (calls st ! c))"
  by (simp add: settle_call)

lemma emit_fields [simp]:
  "pending (emit cid sig st) = pending st"
  "child (emit cid sig st) = child st"
  "initialized (emit cid sig st) = initialized st"
  "microtasks (emit cid sig st) = microtasks st"
  "unhandled (emit cid sig st) = unhandled st"
  "length (calls (emit cid sig st)) = length (calls st)"
  "failed_writes (emit cid sig st) = failed_writes st"
  "uncaught (emit cid sig st) = uncaught st"
  by (simp_all add: emit_def)

lemma emit_ids [simp]:
  "map call_requestId (calls (emit cid sig st)) = map call_requestId (calls st)"
  by (simp add: emit_def map_update list_update_same_conv)

lemma set_listeners_ids [simp]:
  "map call_requestId (calls (set_listeners cid f st)) = map call_requestId (calls st)"
  by (simp add: set_listeners_def map_update list_update_same_conv)

lemma emit_call:
  "c < length (calls st) \<Longrightarrow>
   calls (emit cid sig st) ! c =
     (if c = cid then (calls st ! c)\<lparr>call_emitted := call_emitted (calls st ! c) @ [sig]\<rparr>
      else calls st ! c)"
  by (simp add: emit_def nth_list_update)

lemma reject_all_aux:
  "length (calls (foldl (\<lambda>s entry. settle (snd entry) (Rejected r) s) st es)) = length (calls st) \<and>
   pending (foldl (\<lambda>s entry. settle (snd entry) (Rejected r) s) st es) = pending st \<and>
   child (foldl (\<lambda>s entry. settle (snd entry) (Rejected r) s) st es) = child st \<and>
   initialized (foldl (\<lambda>s entry. settle (snd entry) (Rejected r) s) st es) = initialized st \<and>
   pythonExecutable (foldl (\<lambda>s entry. settle (snd entry) (Rejected r) s) st es) = pythonExecutable st \<and>
   spawned (foldl (\<lambda>s entry. settle (snd entry) (Rejected r) s) st es) = spawned st \<and>
   sigterm_sent (foldl (\<lambda>s entry. settle (snd entry) (Rejected r) s) st es) = sigterm_sent st \<and>
   failed_writes (foldl (\<lambda>s entry. settle (snd entry) (Rejected r) s) st es) = failed_writes st \<and>
   uncaught (foldl (\<lambda>s entry. settle (snd entry) (Rejected r) s) st es) = uncaught st \<and>
   map call_requestId (calls (foldl (\<lambda>s entry. settle (snd entry) (Rejected r) s) st es))
     = map call_requestId (calls st) \<and>
   (\<forall>c < length (calls st).
      call_result (calls (foldl (\<lambda>s entry. settle (snd entry) (Rejected r) s) st es) ! c) =
        (if c \<in> snd ` set es \<and> call_result (calls st ! c) = Pending then Rejected r
         else call_result (calls st ! c)))"
proof (induction es arbitrary: st)
  case Nil
  then show ?case by simp
next
  case (Cons e es)
  show ?case
    using Cons.IH [of "settle (snd e) (Rejected r) st"]
    by (auto simp: settle_result)
qed

lemma reject_all_fields [simp]:
  "length (calls (reject_all r st)) = length (calls st)"
  "pending (reject_all r st) = pending st"
  "child (reject_all r st) = child st"
  "initialized (reject_all r st) = initialized st"
  "pythonExecutable (reject_all r st) = pythonExecutable st"
  "spawned (reject_all r st) = spawned st"
  "sigterm_sent (reject_all r st) = sigterm_sent st"
  "failed_writes (reject_all r st) = failed_writes st"
  "uncaught (reject_all r st) = uncaught st"
  "map call_requestId (calls (reject_all r st)) = map call_requestId (calls st)"
  unfolding reject_all_def using reject_all_aux [of r st "pending st"] by simp_all

lemma reject_all_result:
  "c < length (calls st) \<Longrightarrow>
   call_result (calls (reject_all r st) ! c) =
     (if c \<in> snd ` set (pending st) \<and> call_result (calls st ! c) = Pending then Rejected r
      else call_result (calls st ! c))"
  unfolding reject_all_def using reject_all_aux [of r st "pending st"] by simp

lemma wf_empty_pending: "pending st = [] \<Longrightarrow> wf_client st"
  by (simp add: wf_client_def)

lemma set_update_subset: "set (AList.update k v al) \<subseteq> insert (k, v) (set al)"
  by (induction al) auto

lemma set_delete: "set (AList.delete k al) = {p \<in> set al. fst p \<noteq> k}"
  by (auto simp: AList.delete_eq)

lemma ensureProcess_fields:
  "ensureProcess h st = Inr st1 \<Longrightarrow>
     pending st1 = pending st \<and> calls st1 = calls st \<and> initialized st1 = initialized st \<and>
     microtasks st1 = microtasks st \<and> unhandled st1 = unhandled st \<and> child st1 \<noteq> None \<and>
     uncaught st1 = uncaught st \<and> failed_writes st1 = failed_writes st"
  by (auto simp: ensureProcess_def split: option.splits sum.splits)

lemma stdin_write_fields [simp]:
  "pending (stdin_write r st) = pending st"
  "calls (stdin_write r st) = calls st"
  "initialized (stdin_write r st) = initialized st"
  "microtasks (stdin_write r st) = microtasks st"
  "unhandled (stdin_write r st) = unhandled st"
  "uncaught (stdin_write r st) = uncaught st"
  "pythonExecutable (stdin_write r st) = pythonExecutable st"
  "spawned (stdin_write r st) = spawned st"
  "sigterm_sent (stdin_write r st) = sigterm_sent st"
  "(child (stdin_write r st) = None) = (child st = None)"
  "(\<exists>c. child (stdin_write r st) = Some c) = (\<exists>c. child st = Some c)"
  by (simp_all add: stdin_write_def split: option.splits)

lemma callWithStream_fields:
  assumes "callWithStream h a p rid st = Inr (st', cid)"
  shows "cid = length (calls st)" "calls st' = calls st @ [new_call rid]"
    "pending st' = AList.update rid cid (pending st)" "initialized st' = initialized st"
    "microtasks st' = microtasks st" "unhandled st' = unhandled st" "child st' \<noteq> None"
    "uncaught st' = uncaught st"
  using assms ensureProcess_fields [of h st]
  by (auto simp: callWithStream_def Let_def split: sum.splits)

lemma wf_callWithStream:
  assumes "wf_client st" "callWithStream h a p rid st = Inr (st', cid)"
  shows "wf_client st'"
proof -
  note f = callWithStream_fields [OF assms(2)]
  show ?thesis
    unfolding wf_client_def
  proof (clarify)
    fix r c assume "(r, c) \<in> set (pending st')"
    then have "(r, c) = (rid, cid) \<or> (r, c) \<in> set (pending st)"
      using set_update_subset [of rid cid "pending st"] f(3) by auto
    then show "c < length (calls st') \<and> call_result (calls st' ! c) = Pending \<and>
       call_requestId (calls st' ! c) = r"
    proof
      assume "(r, c) = (rid, cid)"
      then show ?thesis using f(1,2) by (simp add: new_call_def)
    next
      assume "(r, c) \<in> set (pending st)"
      then have "c < length (calls st) \<and> call_result (calls st ! c) = Pending \<and>
          call_requestId (calls st ! c) = r"
        using assms(1) by (auto simp: wf_client_def)
      then show ?thesis using f(2) by (simp add: nth_append)
    qed
  qed
qed

lemma wf_remove_settle:
  assumes "wf_client st" "map_of (pending st) rid = Some cid"
  shows "wf_client (settle cid outcome (st\<lparr>pending := AList.delete rid (pending st)\<rparr>))"
proof -
  have m: "(rid, cid) \<in> set (pending st)" using assms(2) by (rule map_of_SomeD)
  then have k: "cid < length (calls st)" "call_requestId (calls st ! cid) = rid"
    using assms(1) by (auto simp: wf_client_def)
  show ?thesis
    unfolding wf_client_def
  proof (clarify)
    fix r c assume "(r, c) \<in> set (pending (settle cid outcome (st\<lparr>pending := AList.delete rid (pending st)\<rparr>)))"
    then have rc: "(r, c) \<in> set (pending st)" "r \<noteq> rid" by (auto simp: set_delete)
    then have p: "c < length (calls st)" "call_result (calls st ! c) = Pending"
        "call_requestId (calls st ! c) = r"
      using assms(1) by (auto simp: wf_client_def)
    then have "c \<noteq> cid" using rc(2) k(2) by auto
    then show "c < length (calls (settle cid outcome (st\<lparr>pending := AList.delete rid (pending st)\<rparr>))) \<and>
       call_result (calls (settle cid outcome (st\<lparr>pending := AList.delete rid (pending st)\<rparr>)) ! c) = Pending \<and>
       call_requestId (calls (settle cid outcome (st\<lparr>pending := AList.delete rid (pending st)\<rparr>)) ! c) = r"
      using p by (simp add: settle_result)
  qed
qed

lemma wf_cancel: "wf_client st \<Longrightarrow> wf_client (cancel rid cid st)"
  by (auto simp: cancel_def wf_remove_settle split: option.splits)

lemma lookup_pending_Some:
  "lookup_pending st v = Some (rid, cid) \<Longrightarrow> v = Some (JStr rid) \<and> rid \<noteq> [] \<and> map_of (pending st) rid = Some cid"
  by (auto simp: lookup_pending_def split: option.splits json.splits if_splits)

lemma emit_result [simp]: "call_result (calls (emit cid sig st) ! c) = call_result (calls st ! c)"
  by (cases "c = cid") (simp_all add: emit_def)

lemma emit_requestId [simp]:
  "call_requestId (calls (emit cid sig st) ! c) = call_requestId (calls st ! c)"
  by (cases "c = cid") (simp_all add: emit_def)

lemma wf_emit: "wf_client st \<Longrightarrow> wf_client (emit cid sig st)"
  by (simp add: wf_client_def)

lemma wf_client_upd [simp]:
  "wf_client (st\<lparr>microtasks := ms\<rparr>) = wf_client st"
  "wf_client (st\<lparr>unhandled := us\<rparr>) = wf_client st"
  "wf_client (st\<lparr>initialized := b\<rparr>) = wf_client st"
  "wf_client (st\<lparr>child := ch\<rparr>) = wf_client st"
  "wf_client (st\<lparr>uncaught := u\<rparr>) = wf_client st"
  "wf_client (st\<lparr>failed_writes := w\<rparr>) = wf_client st"
  by (simp_all add: wf_client_def)

lemma wf_delete: "wf_client st \<Longrightarrow> wf_client (st\<lparr>pending := AList.delete rid (pending st)\<rparr>)"
  by (auto simp: wf_client_def set_delete)

lemma wf_reaction: "wf_client st \<Longrightarrow> wf_client (reaction cid st)"
  by (simp add: reaction_def wf_emit split: promise.splits)

lemma wf_handleLine: "wf_client st \<Longrightarrow> wf_client (handleLine parsed st)"
  by (auto simp: handleLine_def Let_def wf_emit wf_remove_settle wf_delete
      dest!: lookup_pending_Some split: option.splits sum.splits)

lemma wf_on_exit: "wf_client (on_exit code signal st)"
  by (simp add: on_exit_def wf_empty_pending)

lemma wf_dispose: "wf_client (dispose st)"
  by (simp add: dispose_def Let_def wf_empty_pending)

lemma wf_run_microtask: "wf_client st \<Longrightarrow> wf_client (run_microtask st)"
  by (simp add: run_microtask_def wf_reaction split: list.splits)

lemma wf_set_listeners: "wf_client st \<Longrightarrow> wf_client (set_listeners cid f st)"
  by (auto simp: set_listeners_def wf_client_def nth_list_update)

lemma wf_step: "wf_client st \<Longrightarrow> wf_client (step h op st)"
proof (cases op)
  case (OpCall a p rid)
  assume "wf_client st"
  then show ?thesis using OpCall wf_callWithStream [of st h a p rid]
    by (auto split: sum.splits)
next
  case (OpInitBegin p rid)
  assume "wf_client st"
  then show ?thesis using OpInitBegin wf_callWithStream [of st h "''initialize''" _ rid]
    by (auto simp: ensureInitialised_begin_def split: sum.splits)
next
  case (OpShutdownBegin rid)
  assume "wf_client st"
  then show ?thesis using OpShutdownBegin wf_callWithStream [of st h "''shutdown''" _ rid]
    by (auto simp: shutdown_begin_def wf_dispose split: sum.splits)
next
  case (OpInitResume cid)
  assume "wf_client st"
  then show ?thesis using OpInitResume
    by (auto simp: ensureInitialised_resume_def wf_client_def split: promise.splits)
next
  case (OpShutdownResume cid)
  assume "wf_client st"
  then show ?thesis using OpShutdownResume
    by (auto simp: shutdown_resume_def wf_dispose split: promise.splits)
next
  case OpStdinDead
  assume "wf_client st"
  then show ?thesis using OpStdinDead by (simp add: wf_client_def)
next
  case OpStdinError
  assume "wf_client st"
  then show ?thesis using OpStdinError by (simp add: stdin_error_def)
qed (simp_all add: wf_cancel wf_handleLine wf_on_exit wf_dispose wf_run_microtask wf_set_listeners)

lemma wf_apply_op: "wf_client st \<Longrightarrow> wf_client (apply_op h op st)"
  by (simp add: apply_op_def wf_step)

lemma wf_run: "wf_client st \<Longrightarrow> wf_client (run h ops st)"
  unfolding run_def by (induction ops arbitrary: st) (simp_all add: wf_apply_op)

lemma wf_new_client: "wf_client new_client"
  by (simp add: wf_client_def new_client_def)

lemma emit_more [simp]:
  "pythonExecutable (emit cid sig st) = pythonExecutable st"
  "spawned (emit cid sig st) = spawned st"
  "sigterm_sent (emit cid sig st) = sigterm_sent st"
  by (simp_all add: emit_def)

lemma runtime_known_callWithStream:
  "runtime_known st \<Longrightarrow> callWithStream h a p rid st = Inr (st', cid) \<Longrightarrow> pythonExecutable st' \<noteq> None"
  by (auto simp: runtime_known_def callWithStream_def ensureProcess_def Let_def
      split: sum.splits option.splits)

lemma callWithStream_Inl: "callWithStream h a p rid st = Inl e \<Longrightarrow> pythonExecutable st = None \<and> child st = None"
  by (auto simp: callWithStream_def ensureProcess_def Let_def split: sum.splits option.splits)

lemma calls_empty_iff:
  "(calls (reject_all r st) = []) = (calls st = [])"
  "(calls (settle cid outcome st) = []) = (calls st = [])"
  "(calls (emit cid sig st) = []) = (calls st = [])"
  using reject_all_fields(1) [of r st] settle_fields(8) [of cid outcome st]
    emit_fields(6) [of cid sig st] length_0_conv by metis+

lemma runtime_known_step: "runtime_known st \<Longrightarrow> runtime_known (step h op st)"
proof (cases op)
  case (OpCall a p rid)
  assume "runtime_known st"
  then show ?thesis using OpCall runtime_known_callWithStream [of st h a p rid]
    by (auto simp: runtime_known_def split: sum.splits)
next
  case (OpInitBegin p rid)
  assume "runtime_known st"
  then show ?thesis using OpInitBegin runtime_known_callWithStream [of st h "''initialize''" _ rid]
    by (auto simp: runtime_known_def ensureInitialised_begin_def split: sum.splits)
next
  case (OpShutdownBegin rid)
  assume "runtime_known st"
  then show ?thesis using OpShutdownBegin runtime_known_callWithStream [of st h "''shutdown''" _ rid]
    by (auto simp: runtime_known_def shutdown_begin_def dispose_def Let_def calls_empty_iff
        dest!: callWithStream_Inl split: sum.splits option.splits)
next
  case (OpLine parsed)
  assume "runtime_known st"
  then show ?thesis using OpLine
    by (auto simp: runtime_known_def handleLine_def Let_def settle_def emit_def
        split: option.splits sum.splits)
next
  case (OpCancel c)
  assume "runtime_known st"
  then show ?thesis using OpCancel
    by (auto simp: runtime_known_def cancel_def settle_def split: option.splits)
next
  case OpMicrotask
  assume "runtime_known st"
  then show ?thesis using OpMicrotask
    by (auto simp: runtime_known_def run_microtask_def reaction_def emit_def split: list.splits promise.splits)
next
  case (OpInitResume c)
  assume "runtime_known st"
  then show ?thesis using OpInitResume
    by (auto simp: runtime_known_def ensureInitialised_resume_def split: promise.splits)
next
  case (OpShutdownResume c)
  assume "runtime_known st"
  then show ?thesis using OpShutdownResume
    by (auto simp: runtime_known_def shutdown_resume_def dispose_def Let_def split: promise.splits option.splits)
next
  case (OpExit c sg)
  assume "runtime_known st"
  then show ?thesis using OpExit
    by (auto simp: runtime_known_def on_exit_def)
next
  case OpDispose
  assume "runtime_known st"
  then show ?thesis using OpDispose
    by (auto simp: runtime_known_def dispose_def Let_def split: option.splits)
qed (auto simp: runtime_known_def set_listeners_def stdin_error_def)

lemma runtime_known_apply_op: "runtime_known st \<Longrightarrow> runtime_known (apply_op h op st)"
  by (simp add: apply_op_def runtime_known_step)

lemma runtime_known_run: "runtime_known st \<Longrightarrow> runtime_known (run h ops st)"
  unfolding run_def by (induction ops arbitrary: st) (simp_all add: runtime_known_apply_op)

text \<open>
  An identifier that a call was given stays issued, and once its entry is gone no
  operation brings it back.
\<close>

lemma issued_simps [simp]:
  "issued rid (settle cid outcome st) = issued rid st"
  "issued rid (emit cid sig st) = issued rid st"
  "issued rid (set_listeners cid f st) = issued rid st"
  "issued rid (reject_all r st) = issued rid st"
  unfolding issued_def
  by (simp_all only: settle_ids emit_ids set_listeners_ids reject_all_fields)

lemma issued_upd [simp]:
  "issued rid (st\<lparr>pending := p\<rparr>) = issued rid st"
  "issued rid (st\<lparr>child := ch\<rparr>) = issued rid st"
  "issued rid (st\<lparr>initialized := b\<rparr>) = issued rid st"
  "issued rid (st\<lparr>microtasks := ms\<rparr>) = issued rid st"
  "issued rid (st\<lparr>unhandled := us\<rparr>) = issued rid st"
  "issued rid (st\<lparr>sigterm_sent := k\<rparr>) = issued rid st"
  "issued rid (st\<lparr>uncaught := u\<rparr>) = issued rid st"
  "issued rid (st\<lparr>failed_writes := w\<rparr>) = issued rid st"
  by (simp_all add: issued_def)

lemma issued_callWithStream:
  "issued rid st \<Longrightarrow> callWithStream h a p r st = Inr (st', cid) \<Longrightarrow> issued rid st'"
  using callWithStream_fields(2) [of h a p r st st' cid] by (simp add: issued_def)

lemma issued_dispose [simp]: "issued rid (dispose st) = issued rid st"
  by (simp add: dispose_def Let_def split: option.splits)

lemma issued_on_exit [simp]: "issued rid (on_exit code signal st) = issued rid st"
  by (simp add: on_exit_def)

lemma issued_step: "issued rid st \<Longrightarrow> issued rid (step h op st)"
proof (cases op)
  case (OpCall a p r)
  assume "issued rid st"
  then show ?thesis using OpCall issued_callWithStream [of rid st h a p r]
    by (auto split: sum.splits)
next
  case (OpInitBegin p r)
  assume "issued rid st"
  then show ?thesis using OpInitBegin issued_callWithStream [of rid st h "''initialize''" _ r]
    by (auto simp: ensureInitialised_begin_def split: sum.splits)
next
  case (OpShutdownBegin r)
  assume "issued rid st"
  then show ?thesis using OpShutdownBegin issued_callWithStream [of rid st h "''shutdown''" _ r]
    by (auto simp: shutdown_begin_def split: sum.splits)
next
  case (OpLine parsed)
  assume "issued rid st"
  then show ?thesis using OpLine
    by (auto simp: handleLine_def Let_def split: option.splits sum.splits)
next
  case (OpCancel c)
  assume "issued rid st"
  then show ?thesis using OpCancel
    by (auto simp: cancel_def split: option.splits)
next
  case OpMicrotask
  assume "issued rid st"
  then show ?thesis using OpMicrotask
    by (auto simp: run_microtask_def reaction_def split: list.splits promise.splits)
next
  case (OpInitResume c)
  assume "issued rid st"
  then show ?thesis using OpInitResume
    by (auto simp: ensureInitialised_resume_def split: promise.splits)
next
  case (OpShutdownResume c)
  assume "issued rid st"
  then show ?thesis using OpShutdownResume
    by (auto simp: shutdown_resume_def split: promise.splits)
qed (auto simp: stdin_error_def)

lemma unmatched_callWithStream:
  "map_of (pending st) rid = None \<Longrightarrow> r \<noteq> rid \<Longrightarrow> callWithStream h a p r st = Inr (st', cid)
     \<Longrightarrow> map_of (pending st') rid = None"
  using callWithStream_fields(3) [of h a p r st st' cid] by (simp add: update_conv')

lemma unmatched_remove_settle:
  "map_of (pending st) rid = None \<Longrightarrow>
   map_of (pending (settle c outcome (st\<lparr>pending := AList.delete k (pending st)\<rparr>))) rid = None"
  by (simp add: delete_conv')

lemma unmatched_step:
  assumes "map_of (pending st) rid = None" "issued rid st"
  shows "map_of (pending (step h op st)) rid = None"
proof (cases op)
  case (OpCall a p r)
  then show ?thesis using assms unmatched_callWithStream [of st rid r h a p]
    by (auto split: sum.splits)
next
  case (OpInitBegin p r)
  then show ?thesis using assms unmatched_callWithStream [of st rid r h "''initialize''"]
    by (auto simp: ensureInitialised_begin_def split: sum.splits)
next
  case (OpShutdownBegin r)
  then show ?thesis using assms unmatched_callWithStream [of st rid r h "''shutdown''"]
    by (auto simp: shutdown_begin_def dispose_def Let_def split: sum.splits)
next
  case (OpLine parsed)
  then show ?thesis using assms
    by (auto simp: handleLine_def Let_def delete_conv' split: option.splits sum.splits)
next
  case (OpCancel c)
  then show ?thesis using assms
    by (auto simp: cancel_def delete_conv' split: option.splits)
next
  case OpMicrotask
  then show ?thesis using assms
    by (auto simp: run_microtask_def reaction_def split: list.splits promise.splits)
next
  case (OpInitResume c)
  then show ?thesis using assms
    by (auto simp: ensureInitialised_resume_def split: promise.splits)
next
  case (OpShutdownResume c)
  then show ?thesis using assms
    by (auto simp: shutdown_resume_def dispose_def Let_def split: promise.splits)
qed (use assms in \<open>auto simp: set_listeners_def on_exit_def dispose_def Let_def stdin_error_def\<close>)

lemma unmatched_run:
  "map_of (pending st) rid = None \<Longrightarrow> issued rid st
     \<Longrightarrow> map_of (pending (run h ops st)) rid = None \<and> issued rid (run h ops st)"
  unfolding run_def
  by (induction ops arbitrary: st) (simp_all add: apply_op_def unmatched_step issued_step)

lemma issued_pending:
  assumes "wf_client st" "map_of (pending st) rid = Some cid"
  shows "issued rid st"
proof -
  have "(rid, cid) \<in> set (pending st)" using assms(2) by (rule map_of_SomeD)
  then have "cid < length (calls st)" "call_requestId (calls st ! cid) = rid"
    using assms(1) by (auto simp: wf_client_def)
  then show ?thesis
    unfolding issued_def using nth_map [of cid "calls st" call_requestId] nth_mem
    by (metis length_map)
qed

lemma handleLine_unmatched:
  "map_of (pending st) rid = None \<Longrightarrow> get_field (Some m) ''requestId'' = Some (JStr rid)
     \<Longrightarrow> handleLine (Some m) st = st"
  by (simp add: handleLine_def Let_def lookup_pending_def)

subsection \<open>Exit of the worker\<close>

lemma show_nat_fuel_numeral:
  "show_nat_fuel (numeral k) n =
     (if n < 10 then [digit_char n]
      else show_nat_fuel (pred_numeral k) (n div 10) @ [digit_char (n mod 10)])"
  by (simp add: numeral_eq_Suc)

lemma show_int_examples:
  "show_int 0 = ''0'' \<and> show_int 1 = ''1'' \<and> show_int 137 = ''137'' \<and> show_int 255 = ''255'' \<and>
   show_int (- 1) = ''-1''"
  by (simp add: show_int_def show_nat_def show_nat_fuel_numeral digit_char_def)

lemma on_exit_result:
  assumes "wf_client st" "map_of (pending st) rid = Some cid"
  shows "call_result (calls (on_exit code signal st) ! cid) = Rejected (exit_reason code signal)"
proof -
  have m: "(rid, cid) \<in> set (pending st)" using assms(2) by (rule map_of_SomeD)
  then have "cid < length (calls st)" "call_result (calls st ! cid) = Pending"
    using assms(1) by (auto simp: wf_client_def)
  moreover have "cid \<in> snd ` set (pending st)" using m by force
  ultimately show ?thesis by (simp add: on_exit_def reject_all_result)
qed

lemma callWithStream_spawns:
  assumes "child st = None" "pythonExecutable st \<noteq> None"
  shows "\<exists>st2. callWithStream h a p r st = Inr (st2, length (calls st)) \<and>
     child st2 = Some \<lparr>pid = spawned st, killed = False, stdin_alive = True,
        stdin_written = [\<lparr>req_requestId = r, req_action = a, req_payload = p\<rparr>]\<rparr> \<and>
     spawned st2 = Suc (spawned st)"
  using assms by (auto simp: callWithStream_def ensureProcess_def Let_def stdin_write_def)

text \<open>
  C1. In every state that a run of the client reaches, if a call is pending when the
  worker exits, the exit handler rejects its promise with an error whose message names
  the signal, or else the exit code; it empties the pending map and clears the child and
  the \<open>initialized\<close> flag.  Afterwards no line that bears the identifier of the call is
  matched, whatever happens in between; the next call spawns a new child, and the next
  \<open>ensureInitialised\<close> with a key sends the \<open>initialize\<close> request again.
\<close>

theorem worker_exit_rejects_pending:
  assumes "st = run h ops new_client" and "map_of (pending st) rid = Some cid"
    and "get_field (Some m) ''requestId'' = Some (JStr rid)"
    and "apiKey p = Some k" and "k \<noteq> []"
  shows "call_result (calls (on_exit code signal st) ! cid) =
       Rejected (JsError ''Error''
         (case signal of
            Some sg \<Rightarrow> ''Sidecar exited due to signal '' @ sg
          | None \<Rightarrow> ''Sidecar exited with code '' @
                      (case code of None \<Rightarrow> ''null'' | Some c \<Rightarrow> show_int c))) \<and>
     pending (on_exit code signal st) = [] \<and>
     child (on_exit code signal st) = None \<and>
     \<not> initialized (on_exit code signal st) \<and>
     handleLine (Some m) (run h later (on_exit code signal st)) = run h later (on_exit code signal st) \<and>
     (\<exists>st2. callWithStream h a q r (on_exit code signal st)
              = Inr (st2, length (calls (on_exit code signal st))) \<and>
        child st2 = Some \<lparr>pid = spawned (on_exit code signal st), killed = False, stdin_alive = True,
          stdin_written = [\<lparr>req_requestId = r, req_action = a, req_payload = q\<rparr>]\<rparr>) \<and>
     (\<exists>st3. ensureInitialised_begin h p r (on_exit code signal st)
              = (Awaiting (length (calls (on_exit code signal st))), st3) \<and>
        map_option stdin_written (child st3) =
          Some [\<lparr>req_requestId = r, req_action = ''initialize'',
                 req_payload = Some (initialize_json p)\<rparr>])"
proof -
  let ?st' = "on_exit code signal st"
  have wf: "wf_client st" using assms(1) by (simp add: wf_run wf_new_client)
  have rk: "runtime_known st"
    using assms(1) runtime_known_run [of new_client h ops]
    by (simp add: runtime_known_def new_client_def)
  have "(rid, cid) \<in> set (pending st)" using assms(2) by (rule map_of_SomeD)
  then have "0 < length (calls st)" using wf by (auto simp: wf_client_def)
  then have py: "pythonExecutable ?st' \<noteq> None"
    using rk by (simp add: runtime_known_def on_exit_def)
  have ch: "child ?st' = None" by (simp add: on_exit_def)
  have "call_result (calls ?st' ! cid) = Rejected (exit_reason code signal)"
    using wf assms(2) by (rule on_exit_result)
  then have 1: "call_result (calls ?st' ! cid) =
       Rejected (JsError ''Error''
         (case signal of
            Some sg \<Rightarrow> ''Sidecar exited due to signal '' @ sg
          | None \<Rightarrow> ''Sidecar exited with code '' @
                      (case code of None \<Rightarrow> ''null'' | Some c \<Rightarrow> show_int c)))"
    by (simp add: exit_reason_def new_Error_def split: option.splits)
  have "map_of (pending ?st') rid = None" by (simp add: on_exit_def)
  moreover have "issued rid ?st'" using issued_pending [OF wf assms(2)] by simp
  ultimately have "map_of (pending (run h later ?st')) rid = None"
    using unmatched_run by blast
  then have 5: "handleLine (Some m) (run h later ?st') = run h later ?st'"
    using assms(3) by (rule handleLine_unmatched)
  have 6: "\<exists>st2. callWithStream h a q r ?st' = Inr (st2, length (calls ?st')) \<and>
        child st2 = Some \<lparr>pid = spawned ?st', killed = False, stdin_alive = True,
          stdin_written = [\<lparr>req_requestId = r, req_action = a, req_payload = q\<rparr>]\<rparr>"
    using callWithStream_spawns [OF ch py, of h a q r] by blast
  obtain st3 where st3: "callWithStream h ''initialize'' (Some (initialize_json p)) r ?st'
       = Inr (st3, length (calls ?st'))"
     "child st3 = Some \<lparr>pid = spawned ?st', killed = False, stdin_alive = True,
          stdin_written = [\<lparr>req_requestId = r, req_action = ''initialize'',
             req_payload = Some (initialize_json p)\<rparr>]\<rparr>"
    using callWithStream_spawns [OF ch py, of h "''initialize''" "Some (initialize_json p)" r] by blast
  have "\<not> initialized ?st'" by (simp add: on_exit_def)
  then have 7: "ensureInitialised_begin h p r ?st' = (Awaiting (length (calls ?st')), st3)"
    using assms(4,5) st3(1) by (simp add: ensureInitialised_begin_def)
  have 8: "pending ?st' = []" "child ?st' = None" "\<not> initialized ?st'"
    by (simp_all add: on_exit_def)
  show ?thesis
    using 1 5 6 7 8 st3(2) by simp
qed

theorem worker_exit_rejects_pending_witness:
  "map_of (pending (run example_host one_call_run new_client)) ''r1'' = Some 0 \<and>
   get_field (Some late_reply) ''requestId'' = Some (JStr ''r1'') \<and>
   apiKey example_credentials = Some ''key'' \<and> ''key'' \<noteq> [] \<and>
   call_result (calls (on_exit (Some 137) None (run example_host one_call_run new_client)) ! 0)
     = Rejected (JsError ''Error'' ''Sidecar exited with code 137'') \<and>
   call_result (calls (on_exit None (Some ''SIGKILL'') (run example_host one_call_run new_client)) ! 0)
     = Rejected (JsError ''Error'' ''Sidecar exited due to signal SIGKILL'') \<and>
   pending (on_exit (Some 137) None (run example_host one_call_run new_client)) = [] \<and>
   child (on_exit (Some 137) None (run example_host one_call_run new_client)) = None \<and>
   \<not> initialized (on_exit (Some 137) None (run example_host one_call_run new_client)) \<and>
   handleLine (Some late_reply)
       (run example_host later_call_run
          (on_exit (Some 137) None (run example_host one_call_run new_client)))
     = run example_host later_call_run
          (on_exit (Some 137) None (run example_host one_call_run new_client)) \<and>
   fst (ensureInitialised_begin example_host example_credentials ''i1''
          (on_exit (Some 137) None (run example_host one_call_run new_client)))
     = Awaiting 1"
proof -
  have h1: "map_of (pending (run example_host one_call_run new_client)) ''r1'' = Some 0"
    by (simp add: client_eval one_call_run_def)
  have h3: "get_field (Some late_reply) ''requestId'' = Some (JStr ''r1'')"
    by (simp add: late_reply_def obj_get_def)
  have h4: "apiKey example_credentials = Some ''key''"
    by (simp add: example_credentials_def)
  have h5: "''key'' \<noteq> []" by simp
  have l: "length (calls (on_exit (Some 137) None
      (run example_host one_call_run new_client))) = 1"
    by (simp add: on_exit_def client_eval one_call_run_def)
  note t = worker_exit_rejects_pending [OF refl h1 h3 h4 h5, where code = "Some 137"
        and signal = None and r = "''i1''" and a = "''chat''" and q = None
        and later = later_call_run]
  note u = worker_exit_rejects_pending [OF refl h1 h3 h4 h5, where code = None
        and signal = "Some ''SIGKILL''" and r = "''i1''" and a = "''chat''" and q = None
        and later = later_call_run]
  from t obtain st3 where "ensureInitialised_begin example_host example_credentials ''i1''
          (on_exit (Some 137) None (run example_host one_call_run new_client))
      = (Awaiting (length (calls (on_exit (Some 137) None
           (run example_host one_call_run new_client)))), st3)"
    by blast
  then have i: "fst (ensureInitialised_begin example_host example_credentials ''i1''
          (on_exit (Some 137) None (run example_host one_call_run new_client)))
     = Awaiting 1"
    using l by simp
  have s: "show_int 137 = ''137''"
    by (simp add: show_int_def show_nat_def show_nat_fuel_numeral digit_char_def)
  show ?thesis
    using t u h1 h3 h4 i s by simp
qed

subsection \<open>Cancellation\<close>

lemma cancel_result:
  assumes "wf_client st" "map_of (pending st) rid = Some cid"
  shows "call_result (calls (cancel rid cid st) ! cid) = Rejected createAbortError"
    "\<forall>c. c \<noteq> cid \<longrightarrow> calls (cancel rid cid st) ! c = calls st ! c"
    "map_of (pending (cancel rid cid st)) rid = None"
    "child (cancel rid cid st) = child st"
    "sigterm_sent (cancel rid cid st) = sigterm_sent st"
    "failed_writes (cancel rid cid st) = failed_writes st"
    "uncaught (cancel rid cid st) = uncaught st"
    "pending (cancel rid cid st) = AList.delete rid (pending st)"
    "issued rid (cancel rid cid st)"
proof -
  have m: "(rid, cid) \<in> set (pending st)" using assms(2) by (rule map_of_SomeD)
  then have k: "cid < length (calls st)" "call_result (calls st ! cid) = Pending"
    using assms(1) by (auto simp: wf_client_def)
  show "call_result (calls (cancel rid cid st) ! cid) = Rejected createAbortError"
    using assms(2) k by (simp add: cancel_def settle_def)
  show "\<forall>c. c \<noteq> cid \<longrightarrow> calls (cancel rid cid st) ! c = calls st ! c"
    using assms(2) by (simp add: cancel_def settle_def)
  show "map_of (pending (cancel rid cid st)) rid = None"
    using assms(2) by (simp add: cancel_def delete_conv')
  show "child (cancel rid cid st) = child st" "sigterm_sent (cancel rid cid st) = sigterm_sent st"
    "failed_writes (cancel rid cid st) = failed_writes st"
    "uncaught (cancel rid cid st) = uncaught st"
    "pending (cancel rid cid st) = AList.delete rid (pending st)"
    using assms(2) by (simp_all add: cancel_def)
  show "issued rid (cancel rid cid st)"
    using assms(2) issued_pending [OF assms] by (simp add: cancel_def)
qed

text \<open>
  C4. The \<open>cancel\<close> closure of a pending call removes its entry and rejects its promise
  with the abort error, whose name is \<open>AbortError\<close>.  It does nothing else: the other
  entries, the child, what was written to it and every other call are as before, and no
  signal is sent.  A line that arrives later with the identifier of the cancelled call
  leaves the client unchanged, at once and after any further run, so it settles no other
  call; the identifier has no entry in any later state.
\<close>

theorem cancel_is_local_and_late_replies_are_dropped:
  assumes "st = run h ops new_client" and "map_of (pending st) rid = Some cid"
    and "get_field (Some m) ''requestId'' = Some (JStr rid)"
  shows "call_result (calls (cancel rid cid st) ! cid) =
       Rejected (JsError ''AbortError'' ''The operation was aborted.'') \<and>
     pending (cancel rid cid st) = AList.delete rid (pending st) \<and>
     map_of (pending (cancel rid cid st)) rid = None \<and>
     child (cancel rid cid st) = child st \<and>
     sigterm_sent (cancel rid cid st) = sigterm_sent st \<and>
     failed_writes (cancel rid cid st) = failed_writes st \<and>
     uncaught (cancel rid cid st) = uncaught st \<and>
     (\<forall>c. c \<noteq> cid \<longrightarrow> calls (cancel rid cid st) ! c = calls st ! c) \<and>
     handleLine (Some m) (cancel rid cid st) = cancel rid cid st \<and>
     map_of (pending (run h later (cancel rid cid st))) rid = None \<and>
     handleLine (Some m) (run h later (cancel rid cid st)) = run h later (cancel rid cid st)"
proof -
  have wf: "wf_client st" using assms(1) by (simp add: wf_run wf_new_client)
  note c = cancel_result [OF wf assms(2)]
  have l: "map_of (pending (run h later (cancel rid cid st))) rid = None"
    using c(3) c(9) unmatched_run by blast
  have a: "call_result (calls (cancel rid cid st) ! cid) =
       Rejected (JsError ''AbortError'' ''The operation was aborted.'')"
    using c(1) by (simp add: createAbortError_def)
  show ?thesis
    using a c(2-8) l handleLine_unmatched [OF c(3) assms(3)] handleLine_unmatched [OF l assms(3)]
    by simp
qed

theorem cancel_witness:
  "map_of (pending (run example_host one_call_run new_client)) ''r1'' = Some 0 \<and>
   get_field (Some late_reply) ''requestId'' = Some (JStr ''r1'') \<and>
   call_result (calls (cancel ''r1'' 0 (run example_host one_call_run new_client)) ! 0)
     = Rejected (JsError ''AbortError'' ''The operation was aborted.'') \<and>
   pending (cancel ''r1'' 0 (run example_host one_call_run new_client)) = [] \<and>
   handleLine (Some late_reply)
       (run example_host later_call_run
          (cancel ''r1'' 0 (run example_host one_call_run new_client)))
     = run example_host later_call_run
          (cancel ''r1'' 0 (run example_host one_call_run new_client)) \<and>
   pending (run example_host later_call_run
          (cancel ''r1'' 0 (run example_host one_call_run new_client))) = [(''r2'', 1)]"
proof -
  have h1: "map_of (pending (run example_host one_call_run new_client)) ''r1'' = Some 0"
    by (simp add: client_eval one_call_run_def)
  have h3: "get_field (Some late_reply) ''requestId'' = Some (JStr ''r1'')"
    by (simp add: late_reply_def obj_get_def)
  have p: "pending (run example_host one_call_run new_client) = [(''r1'', 0)]"
    by (simp add: client_eval one_call_run_def)
  have q: "pending (run example_host later_call_run
          (cancel ''r1'' 0 (run example_host one_call_run new_client))) = [(''r2'', 1)]"
    by (simp add: client_eval one_call_run_def later_call_run_def)
  show ?thesis
    using cancel_is_local_and_late_replies_are_dropped
      [OF refl h1 h3, where later = later_call_run] h1 h3 p q
    by simp
qed

subsection \<open>The end-of-stream signal\<close>

lemma end_inv_settle:
  assumes "end_inv st" "outcome \<noteq> Pending"
  shows "end_inv (settle cid outcome st)"
proof (cases "cid < length (calls st) \<and> call_result (calls st ! cid) = Pending")
  case False
  then show ?thesis using assms(1) by (auto simp: settle_def)
next
  case True
  then have s: "settle cid outcome st
      = st\<lparr>calls := (calls st)[cid := (calls st ! cid)\<lparr>call_result := outcome\<rparr>],
            microtasks := microtasks st @ [cid]\<rparr>"
    by (simp add: settle_def)
  have z: "end_count st cid = 0" using assms(1) True by (simp add: end_inv_def)
  show ?thesis
    unfolding end_inv_def s
    using assms True z
    by (auto simp: end_inv_def end_count_def nth_list_update)
qed

lemma end_inv_reject_all_aux:
  "end_inv st \<Longrightarrow> end_inv (foldl (\<lambda>s entry. settle (snd entry) (Rejected r) s) st es)"
  by (induction es arbitrary: st) (simp_all add: end_inv_settle)

lemma end_inv_reject_all: "end_inv st \<Longrightarrow> end_inv (reject_all r st)"
  by (simp add: reject_all_def end_inv_reject_all_aux)

lemma end_inv_upd [simp]:
  "end_inv (st\<lparr>pending := p\<rparr>) = end_inv st"
  "end_inv (st\<lparr>child := ch\<rparr>) = end_inv st"
  "end_inv (st\<lparr>initialized := b\<rparr>) = end_inv st"
  "end_inv (st\<lparr>unhandled := u\<rparr>) = end_inv st"
  "end_inv (st\<lparr>sigterm_sent := k\<rparr>) = end_inv st"
  "end_inv (st\<lparr>pythonExecutable := e\<rparr>) = end_inv st"
  "end_inv (st\<lparr>spawned := n\<rparr>) = end_inv st"
  "end_inv (st\<lparr>uncaught := x\<rparr>) = end_inv st"
  "end_inv (st\<lparr>failed_writes := w\<rparr>) = end_inv st"
  by (simp_all add: end_inv_def end_count_def)

lemma end_inv_emit_event: "end_inv st \<Longrightarrow> end_inv (emit cid (SigEvent p) st)"
  by (auto simp: end_inv_def end_count_def emit_def nth_list_update)

lemma reaction_fields [simp]:
  "microtasks (reaction cid st) = microtasks st"
  "length (calls (reaction cid st)) = length (calls st)"
  "call_result (calls (reaction cid st) ! c) = call_result (calls st ! c)"
  by (simp_all add: reaction_def split: promise.splits)

lemma reaction_end_count:
  "count_list (call_emitted (calls (reaction cid st) ! c)) SigEnd
     \<le> count_list (call_emitted (calls st ! c)) SigEnd + (if c = cid then 1 else 0)"
  by (auto simp: reaction_def emit_def nth_list_update split: promise.splits)

lemma end_inv_reaction:
  assumes "end_inv st" "microtasks st = cid # rest"
  shows "end_inv (reaction cid (st\<lparr>microtasks := rest\<rparr>))"
  unfolding end_inv_def
proof (intro conjI ballI allI impI)
  fix c assume "c \<in> set (microtasks (reaction cid (st\<lparr>microtasks := rest\<rparr>)))"
  then show "c < length (calls (reaction cid (st\<lparr>microtasks := rest\<rparr>)))"
    using assms by (simp add: end_inv_def)
next
  fix c assume c: "c < length (calls (reaction cid (st\<lparr>microtasks := rest\<rparr>)))"
  then have pt: "end_count st c \<le> 1" "call_result (calls st ! c) = Pending \<longrightarrow> end_count st c = 0"
    using assms(1) by (simp_all add: end_inv_def)
  have le: "end_count (reaction cid (st\<lparr>microtasks := rest\<rparr>)) c \<le> end_count st c"
    using reaction_end_count [of cid "st\<lparr>microtasks := rest\<rparr>" c] assms(2)
    by (cases "c = cid") (simp_all add: end_count_def)
  show "end_count (reaction cid (st\<lparr>microtasks := rest\<rparr>)) c \<le> 1"
    using le pt(1) by simp
  assume "call_result (calls (reaction cid (st\<lparr>microtasks := rest\<rparr>)) ! c) = Pending"
  then show "end_count (reaction cid (st\<lparr>microtasks := rest\<rparr>)) c = 0"
    using le pt(2) by simp
qed

lemma end_inv_run_microtask: "end_inv st \<Longrightarrow> end_inv (run_microtask st)"
  by (auto simp: run_microtask_def end_inv_reaction split: list.splits)

lemma end_inv_callWithStream:
  assumes "end_inv st" "callWithStream h a p rid st = Inr (st', cid)"
  shows "end_inv st'"
proof -
  note f = callWithStream_fields [OF assms(2)]
  have "count_list (microtasks st) (length (calls st)) = 0"
    using assms(1) by (auto simp: end_inv_def count_list_0_iff)
  then show ?thesis
    using assms(1) f
    by (auto simp: end_inv_def end_count_def nth_append new_call_def less_Suc_eq)
qed

lemma end_inv_remove_settle:
  "end_inv st \<Longrightarrow> outcome \<noteq> Pending
     \<Longrightarrow> end_inv (settle cid outcome (st\<lparr>pending := p\<rparr>))"
  by (simp add: end_inv_settle)

lemma end_inv_dispose: "end_inv st \<Longrightarrow> end_inv (dispose st)"
  by (simp add: dispose_def Let_def end_inv_reject_all split: option.splits)

lemma end_inv_step: "end_inv st \<Longrightarrow> end_inv (step h op st)"
proof (cases op)
  case (OpCall a p rid)
  assume "end_inv st"
  then show ?thesis using OpCall end_inv_callWithStream [of st h a p rid]
    by (auto split: sum.splits)
next
  case (OpInitBegin p rid)
  assume "end_inv st"
  then show ?thesis using OpInitBegin end_inv_callWithStream [of st h "''initialize''" _ rid]
    by (auto simp: ensureInitialised_begin_def split: sum.splits)
next
  case (OpShutdownBegin rid)
  assume "end_inv st"
  then show ?thesis using OpShutdownBegin end_inv_callWithStream [of st h "''shutdown''" _ rid]
    by (auto simp: shutdown_begin_def end_inv_dispose split: sum.splits)
next
  case (OpCancel c)
  assume "end_inv st"
  then show ?thesis using OpCancel
    by (auto simp: cancel_def end_inv_remove_settle split: option.splits)
next
  case (OpLine parsed)
  assume "end_inv st"
  then show ?thesis using OpLine
    by (auto simp: handleLine_def Let_def end_inv_remove_settle end_inv_emit_event
        split: option.splits sum.splits)
next
  case (OpExit code signal)
  assume "end_inv st"
  then show ?thesis using OpExit by (simp add: on_exit_def end_inv_reject_all)
next
  case (OpInitResume c)
  assume "end_inv st"
  then show ?thesis using OpInitResume
    by (auto simp: ensureInitialised_resume_def split: promise.splits)
next
  case (OpShutdownResume c)
  assume "end_inv st"
  then show ?thesis using OpShutdownResume
    by (auto simp: shutdown_resume_def end_inv_dispose split: promise.splits)
next
  case (OpListen c)
  assume "end_inv st"
  then show ?thesis using OpListen
    by (auto simp: set_listeners_def end_inv_def end_count_def nth_list_update)
next
  case (OpUnlisten c)
  assume "end_inv st"
  then show ?thesis using OpUnlisten
    by (auto simp: set_listeners_def end_inv_def end_count_def nth_list_update)
qed (simp_all add: end_inv_dispose end_inv_run_microtask stdin_error_def)

lemma end_inv_apply_op: "end_inv st \<Longrightarrow> end_inv (apply_op h op st)"
  by (simp add: apply_op_def end_inv_step)

lemma end_inv_run: "end_inv st \<Longrightarrow> end_inv (run h ops st)"
  unfolding run_def by (induction ops arbitrary: st) (simp_all add: end_inv_apply_op)

lemma end_emitted_at_most_once_and_after_settling:
  assumes "st = run h ops new_client" "c < length (calls st)"
  shows "count_list (call_emitted (calls st ! c)) SigEnd \<le> 1 \<and>
     (SigEnd \<in> set (call_emitted (calls st ! c)) \<longrightarrow> call_result (calls st ! c) \<noteq> Pending)"
proof -
  have "end_inv new_client" by (simp add: end_inv_def new_client_def)
  then have "end_inv st" using assms(1) by (simp add: end_inv_run)
  then have "end_count st c \<le> 1" "call_result (calls st ! c) = Pending \<longrightarrow> end_count st c = 0"
    using assms(2) by (auto simp: end_inv_def)
  then show ?thesis by (auto simp: end_count_def count_list_0_iff)
qed

text \<open>
  C5. The claim asks for one end-of-stream signal on the emitter of every call, whatever
  the outcome.  A \<open>chat\<close> call on whose emitter nobody listens for \<^verbatim>\<open>'error'\<close> (as
  \<^verbatim>\<open>GrokSidecarClient.chat\<close> and every unary call make it) is answered by the worker
  with an error message: the promise is rejected, the reaction throws at
  \<^verbatim>\<open>stream.emit('error', ...)\<close> before it reaches \<open>finalize()\<close>, nothing is emitted, the
  rejection is left unhandled and no reaction remains queued.  With an \<^verbatim>\<open>'error'\<close>
  listener on the emitter the same run emits the error and then the end.  The same
  happens to a streamed call whose consumer has removed its listeners when the worker
  exits: the event was emitted, the end never is.
\<close>

theorem end_not_emitted_when_nobody_listens_for_errors:
  "call_result (calls (run example_host unheard_error_run new_client) ! 0)
     = Rejected (JsError ''Error'' ''boom'') \<and>
   call_emitted (calls (run example_host unheard_error_run new_client) ! 0) = [] \<and>
   unhandled (run example_host unheard_error_run new_client) = [JsError ''Error'' ''boom''] \<and>
   microtasks (run example_host unheard_error_run new_client) = [] \<and>
   call_emitted (calls (run example_host heard_error_run new_client) ! 0)
     = [SigError (JsError ''Error'' ''boom''), SigEnd] \<and>
   call_result (calls (run example_host abandoned_stream_run new_client) ! 0)
     = Rejected (JsError ''Error'' ''Sidecar exited with code 1'') \<and>
   call_emitted (calls (run example_host abandoned_stream_run new_client) ! 0)
     = [SigEvent None] \<and>
   microtasks (run example_host abandoned_stream_run new_client) = []"
  by (simp add: client_eval error_reply_def event_line_def set_listeners_def
      unheard_error_run_def heard_error_run_def abandoned_stream_run_def
      exit_reason_def show_int_def show_nat_def digit_char_def)

subsection \<open>Shutdown\<close>

lemma kept_callWithStream:
  "map_of (pending st) rid = Some cid \<Longrightarrow> r \<noteq> rid \<Longrightarrow> callWithStream h a p r st = Inr (st', c)
     \<Longrightarrow> map_of (pending st') rid = Some cid"
  using callWithStream_fields(3) [of h a p r st st' c] by (simp add: update_conv')

lemma kept_step:
  assumes "wf_client st" "map_of (pending st) rid = Some cid" "leaves_pending rid cid op"
  shows "map_of (pending (step h op st)) rid = Some cid"
proof (cases op)
  case (OpCall a p r)
  then show ?thesis using assms kept_callWithStream [of st rid cid r h a p]
    by (auto split: sum.splits)
next
  case (OpInitBegin p r)
  then show ?thesis using assms kept_callWithStream [of st rid cid r h "''initialize''"]
    by (auto simp: ensureInitialised_begin_def split: sum.splits)
next
  case (OpCancel c)
  have "call_requestId (calls st ! c) = rid \<Longrightarrow> map_of (pending st) rid = Some c \<Longrightarrow> False"
    using assms(2,3) OpCancel by simp
  then show ?thesis using assms OpCancel
    by (auto simp: cancel_def delete_conv' split: option.splits)
next
  case (OpLine parsed)
  then show ?thesis using assms
    by (auto simp: handleLine_def Let_def delete_conv' dest!: lookup_pending_Some
        split: option.splits sum.splits)
next
  case OpMicrotask
  then show ?thesis using assms
    by (auto simp: run_microtask_def reaction_def split: list.splits promise.splits)
next
  case (OpInitResume c)
  then show ?thesis using assms
    by (auto simp: ensureInitialised_resume_def split: promise.splits)
qed (use assms in \<open>auto simp: set_listeners_def stdin_error_def\<close>)

lemma callWithStream_sigterm:
  "callWithStream h a p r st = Inr (st', c) \<Longrightarrow> sigterm_sent st' = sigterm_sent st"
  by (auto simp: callWithStream_def ensureProcess_def Let_def split: sum.splits option.splits)

text \<open>The operations that leave a call pending send no signal to the child.\<close>

lemma quiet_step:
  assumes "leaves_pending rid cid op"
  shows "sigterm_sent (step h op st) = sigterm_sent st"
proof (cases op)
  case (OpCall a p r)
  then show ?thesis using callWithStream_sigterm [of h a p r st]
    by (auto split: sum.splits)
next
  case (OpInitBegin p r)
  then show ?thesis using callWithStream_sigterm [of h "''initialize''" _ r st]
    by (auto simp: ensureInitialised_begin_def split: sum.splits)
next
  case (OpCancel c)
  then show ?thesis by (auto simp: cancel_def split: option.splits)
next
  case (OpLine parsed)
  then show ?thesis
    by (auto simp: handleLine_def Let_def split: option.splits sum.splits)
next
  case OpMicrotask
  then show ?thesis
    by (auto simp: run_microtask_def reaction_def split: list.splits promise.splits)
next
  case (OpInitResume c)
  then show ?thesis
    by (auto simp: ensureInitialised_resume_def split: promise.splits)
qed (use assms in \<open>auto simp: set_listeners_def stdin_error_def\<close>)

lemma kept_run:
  "wf_client st \<Longrightarrow> map_of (pending st) rid = Some cid \<Longrightarrow> list_all (leaves_pending rid cid) ops
     \<Longrightarrow> map_of (pending (run h ops st)) rid = Some cid \<and> wf_client (run h ops st) \<and>
         sigterm_sent (run h ops st) = sigterm_sent st"
  unfolding run_def
proof (induction ops arbitrary: st)
  case Nil
  then show ?case by simp
next
  case (Cons op ops)
  then have l: "leaves_pending rid cid op" "list_all (leaves_pending rid cid) ops"
    by simp_all
  show ?case
  proof (cases "uncaught st = None")
    case True
    note s = kept_step [OF Cons.prems(1,2) l(1), of h] wf_step [OF Cons.prems(1), of h op]
      quiet_step [OF l(1), of h st]
    show ?thesis
      using Cons.IH [OF s(2) s(1) l(2)] s(3) True by (simp add: apply_op_def)
  next
    case False
    show ?thesis
      using Cons.IH [OF Cons.prems(1,2) l(2)] False by (simp add: apply_op_def)
  qed
qed

lemma pending_entry_is_pending:
  "wf_client st \<Longrightarrow> map_of (pending st) rid = Some cid
     \<Longrightarrow> cid < length (calls st) \<and> call_result (calls st ! cid) = Pending"
  by (auto simp: wf_client_def dest!: map_of_SomeD)

lemma dispose_fields:
  "child (dispose st) = None" "pending (dispose st) = []" "\<not> initialized (dispose st)"
  "sigterm_sent (dispose st) =
     (case child st of Some c \<Rightarrow> if killed c then sigterm_sent st else sigterm_sent st @ [pid c]
      | None \<Rightarrow> sigterm_sent st)"
  by (simp_all add: dispose_def Let_def split: option.splits)

lemma dispose_result:
  assumes "wf_client st" "map_of (pending st) r = Some c"
  shows "call_result (calls (dispose st) ! c) = Rejected (new_Error ''Sidecar process terminated'')"
proof -
  have m: "(r, c) \<in> set (pending st)" using assms(2) by (rule map_of_SomeD)
  then have "c < length (calls st)" "call_result (calls st ! c) = Pending"
    using assms(1) by (auto simp: wf_client_def)
  moreover have "c \<in> snd ` set (pending st)" using m by force
  ultimately show ?thesis
    by (simp add: dispose_def Let_def reject_all_result split: option.splits)
qed

text \<open>What a call writes: to the pipe of the child, or, where the pipe is dead, nowhere.\<close>

lemma callWithStream_writes:
  assumes "callWithStream h a p r st = Inr (st', cid)"
  shows "\<exists>c. child st' = Some c \<and>
     (if stdin_alive c
      then stdin_written c \<noteq> [] \<and>
           last (stdin_written c) = \<lparr>req_requestId = r, req_action = a, req_payload = p\<rparr> \<and>
           failed_writes st' = failed_writes st
      else failed_writes st' =
             failed_writes st @ [\<lparr>req_requestId = r, req_action = a, req_payload = p\<rparr>])"
  using assms
  by (auto simp: callWithStream_def ensureProcess_def Let_def stdin_write_def
      split: sum.splits option.splits if_splits)

text \<open>
  C6, as the code has it.  \<open>shutdown\<close> sends the \<open>shutdown\<close> request and awaits that
  call with no bound: as long as nothing settles the call (no line with its identifier,
  no exit of the child, no \<open>dispose\<close>), a resumption finds it suspended and no signal
  has been sent to the child.  Once the call has settled, with a result or an error,
  \<open>shutdown\<close> returns after \<open>dispose\<close>: the child is sent \<open>SIGTERM\<close> unless already
  killed, the client forgets it, the pending map is empty, and every call that was still
  pending is rejected with \<open>Sidecar process terminated\<close>.
\<close>

theorem shutdown_waits_for_the_call_then_disposes:
  assumes "st0 = run h ops new_client" and "shutdown_begin h rid st0 = (Awaiting cid, st1)"
    and "list_all (leaves_pending rid cid) silent"
    and "st2 = run h later st1" and "call_result (calls st2 ! cid) \<noteq> Pending"
  shows "(\<exists>c. child st1 = Some c \<and>
        (if stdin_alive c then last (stdin_written c) else last (failed_writes st1)) =
          \<lparr>req_requestId = rid, req_action = ''shutdown'', req_payload = Some (JObj [])\<rparr>) \<and>
     shutdown_resume cid (run h silent st1) = (Awaiting cid, run h silent st1) \<and>
     sigterm_sent (run h silent st1) = sigterm_sent st0 \<and>
     fst (shutdown_resume cid st2) = Returned \<and>
     child (snd (shutdown_resume cid st2)) = None \<and>
     pending (snd (shutdown_resume cid st2)) = [] \<and>
     \<not> initialized (snd (shutdown_resume cid st2)) \<and>
     sigterm_sent (snd (shutdown_resume cid st2)) =
       (case child st2 of
          Some ch \<Rightarrow> if killed ch then sigterm_sent st2 else sigterm_sent st2 @ [pid ch]
        | None \<Rightarrow> sigterm_sent st2) \<and>
     (\<forall>r c. map_of (pending st2) r = Some c \<longrightarrow>
        call_result (calls (snd (shutdown_resume cid st2)) ! c)
          = Rejected (JsError ''Error'' ''Sidecar process terminated''))"
proof -
  have wf0: "wf_client st0" using assms(1) by (simp add: wf_run wf_new_client)
  obtain st' where cw: "callWithStream h ''shutdown'' (Some (JObj [])) rid st0 = Inr (st', cid)"
      and st1: "st1 = st'"
    using assms(2) by (auto simp: shutdown_begin_def split: sum.splits)
  have wf1: "wf_client st1" using wf0 cw st1 by (auto intro: wf_callWithStream)
  have p1: "map_of (pending st1) rid = Some cid"
    using callWithStream_fields(3) [OF cw] st1 by (simp add: update_conv')
  have w: "\<exists>c. child st1 = Some c \<and>
        (if stdin_alive c then last (stdin_written c) else last (failed_writes st1)) =
          \<lparr>req_requestId = rid, req_action = ''shutdown'', req_payload = Some (JObj [])\<rparr>"
    using callWithStream_writes [OF cw] st1 by auto
  have k: "map_of (pending (run h silent st1)) rid = Some cid" "wf_client (run h silent st1)"
      "sigterm_sent (run h silent st1) = sigterm_sent st1"
    using kept_run [OF wf1 p1 assms(3)] by simp_all
  have g: "sigterm_sent st1 = sigterm_sent st0"
    using callWithStream_sigterm [OF cw] st1 by simp
  have "call_result (calls (run h silent st1) ! cid) = Pending"
    using pending_entry_is_pending [OF k(2) k(1)] by simp
  then have a: "shutdown_resume cid (run h silent st1) = (Awaiting cid, run h silent st1)"
    by (simp add: shutdown_resume_def)
  have wf2: "wf_client st2" using wf1 assms(4) by (simp add: wf_run)
  have b: "shutdown_resume cid st2 = (Returned, dispose st2)"
    using assms(5) by (cases "call_result (calls st2 ! cid)") (simp_all add: shutdown_resume_def)
  have d: "\<forall>r c. map_of (pending st2) r = Some c \<longrightarrow>
        call_result (calls (dispose st2) ! c) = Rejected (JsError ''Error'' ''Sidecar process terminated'')"
    using dispose_result [OF wf2] by (simp add: new_Error_def)
  show ?thesis
    using w a b d k(3) g dispose_fields [of st2] by simp
qed

theorem shutdown_witness:
  "shutdown_begin example_host ''s1'' (run example_host one_call_run new_client)
     = (Awaiting 1, run example_host shutdown_sent_run new_client) \<and>
   list_all (leaves_pending ''s1'' 1) [OpTick, OpLine (Some late_reply), OpMicrotask] \<and>
   call_result (calls (run example_host [OpLine (Some shutdown_reply)]
       (run example_host shutdown_sent_run new_client)) ! 1)
     \<noteq> Pending \<and>
   map_of (pending (run example_host [OpLine (Some shutdown_reply)]
       (run example_host shutdown_sent_run new_client)))
     ''r1'' = Some 0 \<and>
   map_option (last \<circ> stdin_written) (child (run example_host shutdown_sent_run new_client))
     = Some \<lparr>req_requestId = ''s1'', req_action = ''shutdown'', req_payload = Some (JObj [])\<rparr> \<and>
   fst (shutdown_resume 1 (run example_host [OpTick, OpLine (Some late_reply), OpMicrotask]
       (run example_host shutdown_sent_run new_client)))
     = Awaiting 1 \<and>
   sigterm_sent (run example_host [OpTick, OpLine (Some late_reply), OpMicrotask]
       (run example_host shutdown_sent_run new_client)) = [] \<and>
   sigterm_sent (snd (shutdown_resume 1 (run example_host [OpLine (Some shutdown_reply)]
       (run example_host shutdown_sent_run new_client))))
     = [0] \<and>
   call_result (calls (snd (shutdown_resume 1 (run example_host [OpLine (Some shutdown_reply)]
       (run example_host shutdown_sent_run new_client))))
       ! 0)
     = Rejected (JsError ''Error'' ''Sidecar process terminated'')"
proof -
  let ?st1 = "run example_host shutdown_sent_run new_client"
  have h2: "shutdown_begin example_host ''s1'' (run example_host one_call_run new_client)
     = (Awaiting 1, ?st1)"
    by (simp add: shutdown_begin_def client_eval one_call_run_def shutdown_sent_run_def)
  have h3: "list_all (leaves_pending ''s1'' 1) [OpTick, OpLine (Some late_reply), OpMicrotask]"
    by (simp add: late_reply_def obj_get_def)
  have h5: "call_result (calls (run example_host [OpLine (Some shutdown_reply)] ?st1) ! 1) \<noteq> Pending"
    by (simp add: client_eval shutdown_reply_def result_line_def shutdown_sent_run_def)
  have h6: "map_of (pending (run example_host [OpLine (Some shutdown_reply)] ?st1)) ''r1'' = Some 0"
    by (simp add: client_eval shutdown_reply_def result_line_def shutdown_sent_run_def)
  have c: "child (run example_host [OpLine (Some shutdown_reply)] ?st1)
      = Some \<lparr>pid = 0, killed = False, stdin_alive = True,
          stdin_written = [\<lparr>req_requestId = ''r1'', req_action = ''chat'', req_payload = None\<rparr>,
             \<lparr>req_requestId = ''s1'', req_action = ''shutdown'', req_payload = Some (JObj [])\<rparr>]\<rparr>"
     "sigterm_sent (run example_host [OpLine (Some shutdown_reply)] ?st1) = []"
     "sigterm_sent (run example_host one_call_run new_client) = []"
    by (simp_all add: client_eval shutdown_reply_def result_line_def shutdown_sent_run_def
        one_call_run_def)
  have w: "map_option (last \<circ> stdin_written) (child ?st1)
     = Some \<lparr>req_requestId = ''s1'', req_action = ''shutdown'', req_payload = Some (JObj [])\<rparr>"
    by (simp add: client_eval shutdown_sent_run_def)
  note t = shutdown_waits_for_the_call_then_disposes [OF refl h2 h3 refl h5]
  from t h6 have r: "call_result (calls (snd (shutdown_resume 1
       (run example_host [OpLine (Some shutdown_reply)] ?st1))) ! 0)
     = Rejected (JsError ''Error'' ''Sidecar process terminated'')"
    by blast
  show ?thesis
    using t h2 h3 h5 h6 c w r by simp
qed

text \<open>
  C6 as stated fails: after \<open>shutdown\<close> has sent its request to a worker that stays
  silent, three timer ticks and a turn of the reaction queue later the method is still
  suspended, the child has not been signalled and the call is still pending.
\<close>

theorem shutdown_has_no_bounded_wait:
  "fst (shutdown_resume 0
         (run example_host [OpShutdownBegin ''s1'', OpTick, OpTick, OpTick, OpMicrotask] new_client))
     = Awaiting 0 \<and>
   map_option pid (child (snd (shutdown_resume 0
         (run example_host [OpShutdownBegin ''s1'', OpTick, OpTick, OpTick, OpMicrotask] new_client))))
     = Some 0 \<and>
   sigterm_sent (snd (shutdown_resume 0
         (run example_host [OpShutdownBegin ''s1'', OpTick, OpTick, OpTick, OpMicrotask] new_client)))
     = [] \<and>
   map_of (pending (snd (shutdown_resume 0
         (run example_host [OpShutdownBegin ''s1'', OpTick, OpTick, OpTick, OpMicrotask] new_client))))
      ''s1'' = Some 0"
  by (simp add: client_eval shutdown_begin_def shutdown_resume_def)

subsection \<open>A call on a dead pipe\<close>

lemma dead_host_run: "uncaught st \<noteq> None \<Longrightarrow> run h ops st = st"
  unfolding run_def by (induction ops) (simp_all add: apply_op_def)

text \<open>
  C7, as the code has it.  In a state that a run reaches, with a child whose input pipe
  is dead, \<open>callWithStream\<close> returns normally and does not look at the pipe: it registers
  the call with a pending promise, changes no other call, queues no reaction, and the
  request is not delivered.  The client does not fail the call: its promise is still
  pending after a turn of the reaction queue.  The \<^verbatim>\<open>'error'\<close> event of the failed
  write finds no listener and is thrown to the event loop; it settles no call, and
  nothing happens in the host afterwards.
\<close>

theorem call_with_dead_stdin_is_registered_and_its_write_error_is_uncaught:
  assumes "st = run h ops new_client" and "uncaught st = None"
    and "child st = Some c" and "\<not> stdin_alive c"
  shows "\<exists>st'. callWithStream h action payload rid st = Inr (st', length (calls st)) \<and>
     call_result (calls st' ! length (calls st)) = Pending \<and>
     map_of (pending st') rid = Some (length (calls st)) \<and>
     (\<forall>i < length (calls st). calls st' ! i = calls st ! i) \<and>
     microtasks st' = microtasks st \<and> unhandled st' = unhandled st \<and> uncaught st' = None \<and>
     child st' = child st \<and>
     failed_writes st' =
       failed_writes st @ [\<lparr>req_requestId = rid, req_action = action, req_payload = payload\<rparr>] \<and>
     call_result (calls (run_microtask st') ! length (calls st)) = Pending \<and>
     uncaught (stdin_error st') = Some (JsError ''Error'' ''write EPIPE'') \<and>
     calls (stdin_error st') = calls st' \<and>
     pending (stdin_error st') = pending st' \<and>
     run h later (stdin_error st') = stdin_error st'"
proof -
  let ?req = "\<lparr>req_requestId = rid, req_action = action, req_payload = payload\<rparr>"
  let ?st' = "st\<lparr>calls := calls st @ [new_call rid],
               pending := AList.update rid (length (calls st)) (pending st),
               failed_writes := failed_writes st @ [?req]\<rparr>"
  have cw: "callWithStream h action payload rid st = Inr (?st', length (calls st))"
    using assms(3,4) by (simp add: callWithStream_def ensureProcess_def Let_def stdin_write_def)
  have p: "map_of (pending ?st') rid = Some (length (calls st))"
    by (simp add: update_conv')
  have r: "call_result (calls ?st' ! length (calls st)) = Pending"
    by (simp add: new_call_def)
  have m: "call_result (calls (run_microtask ?st') ! length (calls st)) = Pending"
    using r by (simp add: run_microtask_def reaction_def split: list.splits promise.splits)
  have e: "stdin_error ?st' = ?st'\<lparr>uncaught := Some (JsError ''Error'' ''write EPIPE'')\<rparr>"
    by (simp add: stdin_error_def new_Error_def)
  have d: "run h later (stdin_error ?st') = stdin_error ?st'"
    by (rule dead_host_run) (simp add: e)
  have o: "\<forall>i < length (calls st). calls ?st' ! i = calls st ! i"
    by (simp add: nth_append)
  have f: "microtasks ?st' = microtasks st" "unhandled ?st' = unhandled st"
    "uncaught ?st' = None" "child ?st' = child st" "failed_writes ?st' = failed_writes st @ [?req]"
    "uncaught (stdin_error ?st') = Some (JsError ''Error'' ''write EPIPE'')"
    "calls (stdin_error ?st') = calls ?st'" "pending (stdin_error ?st') = pending ?st'"
    using assms(2) by (simp_all add: e)
  show ?thesis
    using cw p r o f m d by blast
qed

theorem dead_stdin_witness:
  "uncaught (run example_host [OpCall ''chat'' None ''r1'', OpStdinDead] new_client) = None \<and>
   child (run example_host [OpCall ''chat'' None ''r1'', OpStdinDead] new_client)
     = Some \<lparr>pid = 0, killed = False, stdin_alive = False,
          stdin_written = [\<lparr>req_requestId = ''r1'', req_action = ''chat'', req_payload = None\<rparr>]\<rparr> \<and>
   (\<exists>st'. callWithStream example_host ''chat'' None ''r2''
            (run example_host [OpCall ''chat'' None ''r1'', OpStdinDead] new_client) = Inr (st', 1) \<and>
      call_result (calls st' ! 1) = Pending \<and>
      failed_writes st' = [\<lparr>req_requestId = ''r2'', req_action = ''chat'', req_payload = None\<rparr>] \<and>
      uncaught (stdin_error st') = Some (JsError ''Error'' ''write EPIPE'') \<and>
      run example_host [OpExit (Some 1) None, OpMicrotask] (stdin_error st') = stdin_error st')"
proof -
  have h1: "uncaught (run example_host [OpCall ''chat'' None ''r1'', OpStdinDead] new_client) = None"
    by (simp add: client_eval)
  have h2: "child (run example_host [OpCall ''chat'' None ''r1'', OpStdinDead] new_client)
     = Some \<lparr>pid = 0, killed = False, stdin_alive = False,
          stdin_written = [\<lparr>req_requestId = ''r1'', req_action = ''chat'', req_payload = None\<rparr>]\<rparr>"
    by (simp add: client_eval)
  have h3: "\<not> stdin_alive \<lparr>pid = 0, killed = False, stdin_alive = False,
          stdin_written = [\<lparr>req_requestId = ''r1'', req_action = ''chat'', req_payload = None\<rparr>]\<rparr>"
    by simp
  have l: "length (calls (run example_host [OpCall ''chat'' None ''r1'', OpStdinDead] new_client)) = 1"
      "failed_writes (run example_host [OpCall ''chat'' None ''r1'', OpStdinDead] new_client) = []"
    by (simp_all add: client_eval)
  obtain st' where "callWithStream example_host ''chat'' None ''r2''
            (run example_host [OpCall ''chat'' None ''r1'', OpStdinDead] new_client) = Inr (st', 1)"
      "call_result (calls st' ! 1) = Pending"
      "failed_writes st' = [\<lparr>req_requestId = ''r2'', req_action = ''chat'', req_payload = None\<rparr>]"
      "uncaught (stdin_error st') = Some (JsError ''Error'' ''write EPIPE'')"
      "run example_host [OpExit (Some 1) None, OpMicrotask] (stdin_error st') = stdin_error st'"
    using call_with_dead_stdin_is_registered_and_its_write_error_is_uncaught [OF refl h1 h2 h3,
        where action = "''chat''" and payload = None and rid = "''r2''"
          and later = "[OpExit (Some 1) None, OpMicrotask]"] l
    by auto
  then show ?thesis using h1 h2 by blast
qed

text \<open>
  C7 as stated fails: a second call made after the pipe of the child has died is not
  failed by the client.  After a turn of the reaction queue, the \<^verbatim>\<open>'error'\<close> event of
  the write, the exit of the child and another turn, the promise of the call is pending,
  and so is the promise of the first call, whose request had been delivered; both
  entries are in the pending map, and the error of the write is uncaught in the host.
\<close>

theorem dead_stdin_write_fails_no_call_and_ends_the_host:
  "map_option stdin_alive (child (run example_host [OpCall ''chat'' None ''r1'', OpStdinDead] new_client))
     = Some False \<and>
   call_result (calls (run example_host dead_stdin_run new_client) ! 1) = Pending \<and>
   call_result (calls (run example_host dead_stdin_run new_client) ! 0) = Pending \<and>
   pending (run example_host dead_stdin_run new_client) = [(''r1'', 0), (''r2'', 1)] \<and>
   microtasks (run example_host dead_stdin_run new_client) = [] \<and>
   failed_writes (run example_host dead_stdin_run new_client)
     = [\<lparr>req_requestId = ''r2'', req_action = ''chat'', req_payload = None\<rparr>] \<and>
   uncaught (run example_host dead_stdin_run new_client) = Some (JsError ''Error'' ''write EPIPE'')"
  by (simp add: client_eval dead_stdin_run_def)

subsection \<open>Initialisation\<close>

lemma is_object_truthy: "is_object v \<Longrightarrow> truthy v"
  by (cases v rule: is_object.cases) simp_all

text \<open>
  C8, as the code has it.  When the \<open>initialize\<close> call of the first
  \<open>ensureInitialised\<close> resolved with an object, the first invocation returns with the
  \<open>initialized\<close> flag set, and a second invocation, whatever its payload, returns in the
  same way at once: no call is made and the client is unchanged.
\<close>

theorem initialise_is_idempotent_after_object_result:
  assumes "call_result (calls st ! cid) = Fulfilled r" and "is_object r"
  shows "fst (ensureInitialised_resume cid st) = Returned \<and>
     initialized (snd (ensureInitialised_resume cid st)) \<and>
     ensureInitialised_begin h p rid (snd (ensureInitialised_resume cid st))
       = (Returned, snd (ensureInitialised_resume cid st))"
  using assms is_object_truthy [of r]
  by (simp add: ensureInitialised_resume_def ensureInitialised_begin_def)

theorem initialise_witness:
  "call_result (calls (run example_host
       [OpInitBegin example_credentials ''i1'', OpLine (Some object_result_reply)] new_client) ! 0)
     = Fulfilled (Some (JObj [(''capabilities'', JArr [])])) \<and>
   is_object (Some (JObj [(''capabilities'', JArr [])])) \<and>
   fst (ensureInitialised_resume 0 (run example_host
       [OpInitBegin example_credentials ''i1'', OpLine (Some object_result_reply)] new_client))
     = Returned \<and>
   ensureInitialised_begin example_host example_credentials ''i2''
       (snd (ensureInitialised_resume 0 (run example_host
          [OpInitBegin example_credentials ''i1'', OpLine (Some object_result_reply)] new_client)))
     = (Returned, snd (ensureInitialised_resume 0 (run example_host
          [OpInitBegin example_credentials ''i1'', OpLine (Some object_result_reply)] new_client)))"
proof -
  have h1: "call_result (calls (run example_host
       [OpInitBegin example_credentials ''i1'', OpLine (Some object_result_reply)] new_client) ! 0)
     = Fulfilled (Some (JObj [(''capabilities'', JArr [])]))"
    by (simp add: client_eval ensureInitialised_begin_def example_credentials_def
        object_result_reply_def result_line_def initialize_json_def)
  have h2: "is_object (Some (JObj [(''capabilities'', JArr [])]))" by simp
  show ?thesis
    using initialise_is_idempotent_after_object_result [OF h1 h2, of example_host example_credentials "''i2''"]
      h1 h2
    by simp
qed

text \<open>
  C8 as stated fails: when the worker answers the first \<open>initialize\<close> request with the
  result \<open>null\<close>, the first invocation returns without an error, and the second one,
  with the same credentials, sends \<open>initialize\<close> to the worker again.
\<close>

theorem second_initialise_repeats_handshake_after_null_result:
  "fst (ensureInitialised_resume 0 (run example_host first_initialise_run new_client)) = Returned \<and>
   fst (ensureInitialised_begin example_host example_credentials ''i2''
          (snd (ensureInitialised_resume 0 (run example_host first_initialise_run new_client))))
     = Awaiting 1 \<and>
   map_option (map req_action \<circ> stdin_written)
     (child (snd (ensureInitialised_begin example_host example_credentials ''i2''
          (snd (ensureInitialised_resume 0 (run example_host first_initialise_run new_client))))))
     = Some [''initialize'', ''initialize'']"
  by (simp add: client_eval first_initialise_run_def null_result_reply_def example_credentials_def
      ensureInitialised_begin_def ensureInitialised_resume_def initialize_json_def)

section \<open>Properties of the content generator\<close>

lemmas gen_eval = drive_def pull_def loop_top_def resume_wait_def await_result_def
  toGenerateContentResponse_def event_chunk_def string_or_empty_def obj_get_def close_def
  onEvent_def onEnd_def onError_def new_session_def createStreamGenerator_def Let_def
  text_part_def delta_def





















lemma event_count_failed_stream [simp]: "event_count (failed_stream future e) = length future"
  by (induction future) (simp_all add: failed_stream_def)






















text \<open>
  An event whose \<open>event\<close> field is an object with a key \<open>toString\<close> is not convertible:
  the generator throws the \<^verbatim>\<open>TypeError\<close> of the conversion and ends, although the
  stream ends with a result.
\<close>

lemma unconvertible_event_ends_the_generator:
  "stream_of unprintable_consumer = normal_stream [unprintable_event] (chat_result (JObj [])) \<and>
   \<not> convertible example_parse unprintable_event \<and>
   outputs (drive example_parse example_stringify (unprintable_consumer @ [Next, Next]) new_session)
     = [Throw (JsError ''TypeError'' ''Cannot convert object to primitive value''), Done, Done]"
  by (simp add: unprintable_consumer_def unprintable_event_def stream_of_def normal_stream_def
      convertible_def cannot_convert_def gen_eval)


end
